theory Spec2Isabelle
  imports Main "HOL-Library.Char_ord" "HOL-Library.List_Lexorder"
begin

section \<open>Python values used by the client\<close>

text \<open>
  The model follows \<^verbatim>\<open>s3_hrwsi_downloader.py\<close>. Python strings are lists of
  characters with code points below 256; on that range the class \<^verbatim>\<open>\d\<close> of the
  module \<^verbatim>\<open>re\<close> is exactly the ten ASCII digits.

  \<^verbatim>\<open>sys.exit(arg)\<close> raises \<^verbatim>\<open>SystemExit(arg)\<close>. When it reaches the top level the
  interpreter ends the process: an integer argument is the exit status handed to the
  operating system, any other object (here: a string) is printed on the error stream and
  the exit status is 1. Every other exception that reaches the top level prints a
  traceback and gives exit status 1.
\<close>

datatype exit_arg = ExitInt int | ExitStr string

datatype exn =
    SystemExit exit_arg
  | ClientError string
  | EndpointConnectionError
  | FileNotFoundError
  | RuntimeError string
  | UnboundLocalError
  | AttributeError
  | OverflowError
  | ValueError
  | TypeError
  | CRSError
  | GEOSException
  | DataSourceError
  | OtherError string

fun exit_status :: "exn option \<Rightarrow> int" where
  "exit_status None = 0"
| "exit_status (Some (SystemExit (ExitInt n))) = n"
| "exit_status (Some (SystemExit (ExitStr s))) = 1"
| "exit_status (Some e) = 1"

section \<open>Tile identifiers\<close>

definition is_digit :: "char \<Rightarrow> bool" where
  "is_digit c \<longleftrightarrow> CHR ''0'' \<le> c \<and> c \<le> CHR ''9''"

definition is_AZ :: "char \<Rightarrow> bool" where
  "is_AZ c \<longleftrightarrow> CHR ''A'' \<le> c \<and> c \<le> CHR ''Z''"

text \<open>The pattern \<^verbatim>\<open>\d{2}[A-Z]{3}\<close> tried at the start of a string.\<close>

fun match_tile :: "string \<Rightarrow> string option" where
  "match_tile (a # b # c # d # e # rest) =
     (if is_digit a \<and> is_digit b \<and> is_AZ c \<and> is_AZ d \<and> is_AZ e
      then Some [a, b, c, d, e] else None)"
| "match_tile s = None"

text \<open>\<^verbatim>\<open>re.search\<close>: the leftmost position where the pattern matches.\<close>

fun re_search_tile :: "string \<Rightarrow> string option" where
  "re_search_tile [] = None"
| "re_search_tile (x # xs) =
     (case match_tile (x # xs) of
        Some m \<Rightarrow> Some m
      | None \<Rightarrow> re_search_tile xs)"

text \<open>
  \<^verbatim>\<open>validate_tile_format\<close>: \<^verbatim>\<open>tile\<close> stays \<^verbatim>\<open>None\<close> unless the pattern was found
  and the text has length 5, or length 6 with a leading \<^verbatim>\<open>T\<close>; \<^verbatim>\<open>tile.group(0)\<close> on
  \<^verbatim>\<open>None\<close> raises, and the bare \<^verbatim>\<open>except\<close> turns that into \<^verbatim>\<open>sys.exit(-2)\<close>.
\<close>

definition validate_tile_format :: "string \<Rightarrow> exn + string" where
  "validate_tile_format tile_text =
     (let found = re_search_tile tile_text;
          tile = (if found \<noteq> None \<and>
                     ((length tile_text = 6 \<and> tile_text ! 0 = CHR ''T'') \<or>
                      length tile_text = 5)
                  then found else None)
      in case tile of
           Some m \<Rightarrow> Inr m
         | None \<Rightarrow> Inl (SystemExit (ExitInt (- 2))))"

text \<open>\<^verbatim>\<open>str.upper\<close> on ASCII text: a lower-case letter moves down by 32.\<close>

definition upper_char :: "char \<Rightarrow> char" where
  "upper_char c =
     (if CHR ''a'' \<le> c \<and> c \<le> CHR ''z'' then char_of (of_char c - (32::nat)) else c)"

definition upper :: "string \<Rightarrow> string" where
  "upper s = map upper_char s"

text \<open>
  The comprehension \<^verbatim>\<open>[self.validate_tile_format(tile).upper() for tile in tiles]\<close>
  of \<^verbatim>\<open>build_query\<close>: the first tile that fails ends the run.
\<close>

fun validate_tiles :: "string list \<Rightarrow> exn + string list" where
  "validate_tiles [] = Inr []"
| "validate_tiles (t # ts) =
     (case validate_tile_format t of
        Inl e \<Rightarrow> Inl e
      | Inr m \<Rightarrow>
          (case validate_tiles ts of
             Inl e \<Rightarrow> Inl e
           | Inr ms \<Rightarrow> Inr (upper m # ms)))"

text \<open>
  The tile branch of \<^verbatim>\<open>build_query\<close> when neither \<^verbatim>\<open>wkt\<close> nor \<^verbatim>\<open>vector\<close> is
  given. With an empty tile list the branch \<^verbatim>\<open>if tiles:\<close> is skipped, the entry stays
  \<^verbatim>\<open>None\<close> and \<^verbatim>\<open>len\<close> raises \<^verbatim>\<open>TypeError\<close> (the command line never gives an
  empty list). Otherwise: validation, the emptiness check, and \<^verbatim>\<open>list(set(...))\<close>,
  which keeps one copy of each identifier, in an order Python does not fix.
\<close>

definition resolve_tiles :: "string list \<Rightarrow> exn + string list" where
  "resolve_tiles tiles_arg =
     (if tiles_arg = [] then Inl TypeError
      else case validate_tiles tiles_arg of
             Inl e \<Rightarrow> Inl e
           | Inr ts \<Rightarrow>
               if length ts = 0 then Inl (SystemExit (ExitInt (- 2)))
               else Inr (remdups ts))"

text \<open>The lexical pattern of the specification: \<^verbatim>\<open>##XXX\<close> or \<^verbatim>\<open>T##XXX\<close>.\<close>

definition tile_core :: "string \<Rightarrow> bool" where
  "tile_core s \<longleftrightarrow>
     length s = 5 \<and> is_digit (s ! 0) \<and> is_digit (s ! 1) \<and>
     is_AZ (s ! 2) \<and> is_AZ (s ! 3) \<and> is_AZ (s ! 4)"

definition tile_pattern :: "string \<Rightarrow> bool" where
  "tile_pattern s \<longleftrightarrow>
     tile_core s \<or> (length s = 6 \<and> s ! 0 = CHR ''T'' \<and> tile_core (tl s))"

section \<open>The object store\<close>

text \<open>
  An object summary of the bucket: its key and its size in bytes. Two summaries of one
  bucket are equal (\<^verbatim>\<open>==\<close>, \<^verbatim>\<open>in\<close>) when their keys are equal.
\<close>

record s3_object =
  key :: string
  size_bytes :: int

type_synonym bucket = "s3_object list"

definition startswith :: "string \<Rightarrow> string \<Rightarrow> bool" where
  "startswith p s \<longleftrightarrow> take (length p) s = p"

text \<open>
  \<^verbatim>\<open>Bucket.objects.filter(Prefix=prefix, Marker=marker)\<close>, as the script relies on it:
  the objects whose key starts with the prefix, in ascending lexicographic key order,
  starting strictly after the marker when one is given.
\<close>

definition objects_filter :: "bucket \<Rightarrow> string \<Rightarrow> string option \<Rightarrow> s3_object list" where
  "objects_filter bucket prefix marker =
     filter (\<lambda>obj. startswith prefix (key obj) \<and>
                   (case marker of None \<Rightarrow> True | Some m \<Rightarrow> m < key obj))
            (sort_key key bucket)"

section \<open>Validation of the query parameters\<close>

text \<open>\<^verbatim>\<open>validate_product_type\<close>: at least one object under \<^verbatim>\<open>product_type + "/"\<close>.\<close>

definition validate_product_type :: "bucket \<Rightarrow> string \<Rightarrow> exn + string" where
  "validate_product_type bucket product_type =
     (let valid = (objects_filter bucket (product_type @ ''/'') None \<noteq> [])
      in if \<not> valid then Inl (SystemExit (ExitStr ''-2'')) else Inr product_type)"

fun validate_product_types :: "bucket \<Rightarrow> string list \<Rightarrow> exn + string list" where
  "validate_product_types bucket [] = Inr []"
| "validate_product_types bucket (pT # pTs) =
     (case validate_product_type bucket pT of
        Inl e \<Rightarrow> Inl e
      | Inr v \<Rightarrow>
          (case validate_product_types bucket pTs of
             Inl e \<Rightarrow> Inl e
           | Inr vs \<Rightarrow> Inr (v # vs)))"

text \<open>
  \<^verbatim>\<open>validate_wkt_epsg\<close>, given what \<^verbatim>\<open>GeoSeries.from_wkt\<close> does with the text and the
  projection: it raises, or it gives a geometry of some type.
\<close>

definition validate_wkt_epsg :: "exn + string \<Rightarrow> exn + unit" where
  "validate_wkt_epsg from_wkt =
     (case from_wkt of
        Inl e \<Rightarrow>
          if e = CRSError then Inl (SystemExit (ExitStr ''-2''))
          else if e = GEOSException then Inl (SystemExit (ExitStr ''-2''))
          else Inl e
      | Inr geom_type \<Rightarrow>
          if geom_type \<notin> set [''MultiPolygon'', ''Polygon'']
          then Inl (SystemExit (ExitStr ''-2''))
          else Inr ())"

text \<open>
  \<^verbatim>\<open>validate_MGRS_file\<close> and the first half of \<^verbatim>\<open>validate_layer\<close>, given what
  \<^verbatim>\<open>gpd.read_file\<close> does with the file.
\<close>

definition validate_MGRS_file :: "exn + unit \<Rightarrow> exn + unit" where
  "validate_MGRS_file read_file =
     (case read_file of
        Inl e \<Rightarrow>
          if e = DataSourceError then Inl (SystemExit (ExitStr ''-2''))
          else if e = ValueError then Inl (SystemExit (ExitStr ''-2''))
          else if e = GEOSException then Inl (SystemExit (ExitStr ''-2''))
          else Inl e
      | Inr u \<Rightarrow> Inr ())"

definition validate_layer :: "exn + unit \<Rightarrow> exn + string \<Rightarrow> exn + unit" where
  "validate_layer read_file from_wkt =
     (case read_file of
        Inl e \<Rightarrow>
          if e = DataSourceError then Inl (SystemExit (ExitStr ''-2''))
          else if e = ValueError then Inl (SystemExit (ExitStr ''-2''))
          else if e = GEOSException then Inl (SystemExit (ExitStr ''-2''))
          else Inl e
      | Inr u \<Rightarrow> validate_wkt_epsg from_wkt)"

section \<open>Calendar dates\<close>

text \<open>
  \<^verbatim>\<open>datetime.date\<close>: a year from 1 to 9999, a month, and a day of that month.
\<close>

record date =
  year :: nat
  month :: nat
  day :: nat

definition is_leap :: "nat \<Rightarrow> bool" where
  "is_leap y \<longleftrightarrow> y mod 4 = 0 \<and> (y mod 100 \<noteq> 0 \<or> y mod 400 = 0)"

definition days_in_month :: "nat \<Rightarrow> nat \<Rightarrow> nat" where
  "days_in_month y m =
     (if m = 2 then (if is_leap y then 29 else 28)
      else if m \<in> set [4, 6, 9, 11] then 30
      else 31)"

definition valid_date :: "date \<Rightarrow> bool" where
  "valid_date d \<longleftrightarrow>
     1 \<le> year d \<and> year d \<le> 9999 \<and> 1 \<le> month d \<and> month d \<le> 12 \<and>
     1 \<le> day d \<and> day d \<le> days_in_month (year d) (month d)"

definition date_less :: "date \<Rightarrow> date \<Rightarrow> bool" where
  "date_less a b \<longleftrightarrow>
     year a < year b \<or>
     (year a = year b \<and> (month a < month b \<or> (month a = month b \<and> day a < day b)))"

definition date_le :: "date \<Rightarrow> date \<Rightarrow> bool" where
  "date_le a b \<longleftrightarrow> date_less a b \<or> (year a = year b \<and> month a = month b \<and> day a = day b)"

definition date_max :: date where
  "date_max = \<lparr>year = 9999, month = 12, day = 31\<rparr>"

text \<open>
  \<^verbatim>\<open>d + datetime.timedelta(days=1)\<close>: the next calendar day; beyond \<^verbatim>\<open>date.max\<close>
  the addition raises \<^verbatim>\<open>OverflowError\<close>.
\<close>

definition add_one_day :: "date \<Rightarrow> exn + date" where
  "add_one_day d =
     (if year d = 9999 \<and> month d = 12 \<and> day d = 31 then Inl OverflowError
      else if day d < days_in_month (year d) (month d) then Inr (d\<lparr>day := day d + 1\<rparr>)
      else if month d < 12 then Inr (d\<lparr>month := month d + 1, day := 1\<rparr>)
      else Inr (d\<lparr>year := year d + 1, month := 1, day := 1\<rparr>))"

text \<open>
  \<^verbatim>\<open>validate_dates\<close>, given what \<^verbatim>\<open>strptime\<close> makes of the two texts (\<^verbatim>\<open>None\<close>: it
  raised \<^verbatim>\<open>ValueError\<close> or \<^verbatim>\<open>TypeError\<close>).
\<close>

definition validate_dates :: "date option \<Rightarrow> date option \<Rightarrow> exn + date \<times> date" where
  "validate_dates dateStart dateEnd =
     (case dateStart of
        None \<Rightarrow> Inl (SystemExit (ExitInt (- 2)))
      | Some s \<Rightarrow>
          (case dateEnd of
             None \<Rightarrow> Inl (SystemExit (ExitInt (- 2)))
           | Some e \<Rightarrow>
               if date_less e s then Inl (SystemExit (ExitInt (- 2)))
               else Inr (s, e)))"

section \<open>Keys and markers\<close>

definition digit_char :: "nat \<Rightarrow> char" where
  "digit_char n = char_of (48 + n)"

text \<open>The decimal text of a number, as \<^verbatim>\<open>f"{n}"\<close> gives it: no padding.\<close>

fun str_of_nat :: "nat \<Rightarrow> string" where
  "str_of_nat n = (if n < 10 then [digit_char n] else str_of_nat (n div 10) @ [digit_char (n mod 10)])"

declare str_of_nat.simps [simp del]

text \<open>\<^verbatim>\<open>strftime('%m')\<close> and \<^verbatim>\<open>strftime('%d')\<close>: two digits, zero-padded.\<close>

definition pad2 :: "nat \<Rightarrow> string" where
  "pad2 n = [digit_char (n div 10), digit_char (n mod 10)]"

text \<open>Four digits, zero-padded: the way a catalogue key writes the year.\<close>

definition enc4 :: "nat \<Rightarrow> string" where
  "enc4 n = pad2 (n div 100) @ pad2 (n mod 100)"

text \<open>
  \<^verbatim>\<open>f"{pT}/{tile}/{d.year}/{d.strftime('%m')}/{d.strftime('%d')}"\<close>: the year is the
  integer attribute, the month and the day are formatted.
\<close>

definition marker :: "string \<Rightarrow> string \<Rightarrow> date \<Rightarrow> string" where
  "marker pT tile d =
     pT @ ''/'' @ tile @ ''/'' @ str_of_nat (year d) @ ''/'' @ pad2 (month d) @ ''/'' @ pad2 (day d)"

text \<open>
  \<^verbatim>\<open>os.path.dirname\<close> (POSIX): everything up to the last slash, without trailing
  slashes unless it consists of slashes only.
\<close>

definition dirname :: "string \<Rightarrow> string" where
  "dirname p =
     (let i = length p - length (takeWhile (\<lambda>c. c \<noteq> CHR ''/'') (rev p));
          head = take i p
      in if head \<noteq> [] \<and> head \<noteq> replicate (length head) CHR ''/''
         then rev (dropWhile (\<lambda>c. c = CHR ''/'') (rev head))
         else head)"

section \<open>The query\<close>

record request_params =
  tiles :: "string list"
  productType :: "string list"
  start_date :: date
  end_date :: date

definition DOWNLOAD_THRESHOLD :: nat where
  "DOWNLOAD_THRESHOLD = 500"

text \<open>
  \<^verbatim>\<open>build_query\<close> in the tile selection mode (\<^verbatim>\<open>wkt\<close> and \<^verbatim>\<open>vector\<close> absent): the
  tiles, then the product types, then the dates; the first failure ends the run.
\<close>

definition build_query ::
  "bucket \<Rightarrow> string list \<Rightarrow> string list \<Rightarrow> date option \<Rightarrow> date option \<Rightarrow> exn + request_params" where
  "build_query bucket tiles_arg productType_arg dateStart dateEnd =
     (case resolve_tiles tiles_arg of
        Inl e \<Rightarrow> Inl e
      | Inr ts \<Rightarrow>
          (case validate_product_types bucket productType_arg of
             Inl e \<Rightarrow> Inl e
           | Inr pTs \<Rightarrow>
               (case validate_dates dateStart dateEnd of
                  Inl e \<Rightarrow> Inl e
                | Inr (s, e) \<Rightarrow>
                    Inr \<lparr>tiles = ts, productType = pTs, start_date = s, end_date = e\<rparr>)))"

text \<open>
  The two listings of one product type and tile and their difference
  (\<^verbatim>\<open>contents_to_filter\<close>, \<^verbatim>\<open>contents_filter\<close>, \<^verbatim>\<open>contents\<close>).
\<close>

definition contents_of :: "bucket \<Rightarrow> date \<Rightarrow> date \<Rightarrow> string \<Rightarrow> string \<Rightarrow> s3_object list" where
  "contents_of bucket start_marker_date end_marker_date pT tile =
     (let marker_start = marker pT tile start_marker_date;
          marker_end = marker pT tile end_marker_date;
          prefix = pT @ ''/'' @ tile;
          contents_to_filter = objects_filter bucket prefix (Some marker_start);
          contents_filter = objects_filter bucket prefix (Some marker_end)
      in filter (\<lambda>item. key item \<notin> set (map key contents_filter)) contents_to_filter)"

text \<open>The loop over \<^verbatim>\<open>contents\<close>: the sizes add up, a product is appended once.\<close>

fun scan_contents :: "s3_object list \<Rightarrow> int \<times> string list \<Rightarrow> int \<times> string list" where
  "scan_contents [] acc = acc"
| "scan_contents (content # rest) (size_b, list_products) =
     (let layer = key content;
          product = dirname layer
      in scan_contents rest
           (size_b + size_bytes content,
            if product \<notin> set list_products then list_products @ [product] else list_products))"

text \<open>The loop over the tiles of one product type, and the loop over the product types.\<close>

fun scan_tiles ::
  "bucket \<Rightarrow> date \<Rightarrow> date \<Rightarrow> string \<Rightarrow> string list \<Rightarrow> int \<times> string list \<Rightarrow> int \<times> string list" where
  "scan_tiles bucket sd ed pT [] acc = acc"
| "scan_tiles bucket sd ed pT (tile # rest) (total_size_b, total_list_products) =
     (let (size_b, list_products) = scan_contents (contents_of bucket sd ed pT tile) (0, [])
      in scan_tiles bucket sd ed pT rest
           (total_size_b + size_b, total_list_products @ list_products))"

fun scan_product_types ::
  "bucket \<Rightarrow> date \<Rightarrow> date \<Rightarrow> string list \<Rightarrow> string list \<Rightarrow> int \<times> string list \<Rightarrow> int \<times> string list" where
  "scan_product_types bucket sd ed ts [] acc = acc"
| "scan_product_types bucket sd ed ts (pT # rest) acc =
     scan_product_types bucket sd ed ts rest (scan_tiles bucket sd ed pT ts acc)"

text \<open>
  What \<^verbatim>\<open>execute_request\<close> leaves behind: the product list, the total size, the two
  warnings, and the text written to \<^verbatim>\<open>query_file.txt\<close>.
\<close>

record query_result =
  total_list_products :: "string list"
  total_size_b :: int
  warn_no_product :: bool
  warn_threshold :: bool
  query_file_text :: string

definition writelines :: "string list \<Rightarrow> string" where
  "writelines ls = concat ls"

definition execute_request :: "bucket \<Rightarrow> request_params \<Rightarrow> exn + query_result" where
  "execute_request bucket request =
     (let start_marker_date = start_date request
      in case add_one_day (end_date request) of
           Inl e \<Rightarrow> Inl e
         | Inr end_marker_date \<Rightarrow>
             (let (total_size, total_list) =
                    scan_product_types bucket start_marker_date end_marker_date
                      (tiles request) (productType request) (0, [])
              in Inr \<lparr>total_list_products = total_list,
                      total_size_b = total_size,
                      warn_no_product = (length total_list = 0),
                      warn_threshold = (length total_list > DOWNLOAD_THRESHOLD),
                      query_file_text = writelines (map (\<lambda>res. res @ [CHR 0x0A]) total_list)\<rparr>))"

section \<open>Reading the query file\<close>

text \<open>
  A text file read with universal newlines: \<^verbatim>\<open>\n\<close>, \<^verbatim>\<open>\r\n\<close> and \<^verbatim>\<open>\r\<close> end
  a line, and each line read ends in \<^verbatim>\<open>\n\<close>, except possibly the last. The first
  argument is the line read so far.
\<close>

fun readlines_from :: "string \<Rightarrow> string \<Rightarrow> string list" where
  "readlines_from cur [] = (if cur = [] then [] else [cur])"
| "readlines_from cur (c # cs) =
     (if c = CHR 0x0A then (cur @ [CHR 0x0A]) # readlines_from [] cs
      else if c = CHR 0x0D then
        (cur @ [CHR 0x0A]) #
          (case cs of
             [] \<Rightarrow> []
           | c' # cs' \<Rightarrow> if c' = CHR 0x0A then readlines_from [] cs' else readlines_from [] cs)
      else readlines_from (cur @ [c]) cs)"

definition readlines :: "string \<Rightarrow> string list" where
  "readlines text = readlines_from [] text"

text \<open>\<^verbatim>\<open>str.isspace\<close> on one character, for code points below 256.\<close>

definition is_space :: "char \<Rightarrow> bool" where
  "is_space c \<longleftrightarrow>
     c \<in> set [CHR 0x09, CHR 0x0A, CHR 0x0B, CHR 0x0C, CHR 0x0D,
               CHR 0x1C, CHR 0x1D, CHR 0x1E, CHR 0x1F, CHR 0x20, CHR 0x85, CHR 0xA0]"

definition strip :: "string \<Rightarrow> string" where
  "strip s = rev (dropWhile is_space (rev (dropWhile is_space s)))"

text \<open>
  A line that survives the writing and the reading unchanged: not empty, no whitespace at
  either end, no line break inside.
\<close>

definition clean_line :: "string \<Rightarrow> bool" where
  "clean_line p \<longleftrightarrow>
     p \<noteq> [] \<and> \<not> is_space (hd p) \<and> \<not> is_space (last p) \<and>
     CHR 0x0A \<notin> set p \<and> CHR 0x0D \<notin> set p"

text \<open>\<^verbatim>\<open>[x.strip() for x in content if x.strip()]\<close>\<close>

definition product_list_of :: "string list \<Rightarrow> string list" where
  "product_list_of content = map strip (filter (\<lambda>x. strip x \<noteq> []) content)"

section \<open>The download\<close>

text \<open>
  The store during a download. Each run of the \<^verbatim>\<open>try\<close> block of
  \<^verbatim>\<open>download_from_s3\<close> (listing the objects of the product, then transferring each)
  either completes or stops with the exception of the first operation that fails;
  \<^verbatim>\<open>script\<close> holds these outcomes for the runs to come, in order, and a run past its
  end completes. \<^verbatim>\<open>attempts\<close> records the product of every run made, \<^verbatim>\<open>sleeps\<close>
  every delay slept.
\<close>

record store_state =
  script :: "exn option list"
  attempts :: "string list"
  sleeps :: "nat list"

definition run_try_block :: "string \<Rightarrow> store_state \<Rightarrow> exn option \<times> store_state" where
  "run_try_block product_dir s =
     (case script s of
        [] \<Rightarrow> (None, s\<lparr>attempts := attempts s @ [product_dir]\<rparr>)
      | r # rs \<Rightarrow> (r, s\<lparr>script := rs, attempts := attempts s @ [product_dir]\<rparr>))"

text \<open>
  The local variable \<^verbatim>\<open>err\<close>. It starts as \<^verbatim>\<open>None\<close>. A clause
  \<^verbatim>\<open>except ... as err\<close> binds it to the exception caught and, when the clause is left,
  deletes it: after such a clause the name is unbound.
\<close>

datatype 'a local_var = Unbound | Bound 'a

text \<open>\<^verbatim>\<open>err.response['Error']['Code']\<close>; only a \<^verbatim>\<open>ClientError\<close> has a response.\<close>

fun response_code :: "exn \<Rightarrow> string option" where
  "response_code (ClientError code) = Some code"
| "response_code e = None"

text \<open>\<^verbatim>\<open>err == "404"\<close>: an exception object is never equal to a string.\<close>

definition exn_eq_str :: "exn \<Rightarrow> string \<Rightarrow> bool" where
  "exn_eq_str e s \<longleftrightarrow> False"

text \<open>
  The three \<^verbatim>\<open>except\<close> clauses. The result is \<^verbatim>\<open>None\<close> when no clause catches the
  exception; otherwise the clause raises the \<^verbatim>\<open>RuntimeError\<close> given.
\<close>

fun except_clauses :: "exn \<Rightarrow> exn option" where
  "except_clauses (ClientError code) =
     (let err = ClientError code
      in if exn_eq_str err ''404'' then Some (RuntimeError ''The file does not exists'')
         else if response_code err = Some ''403'' then Some (RuntimeError ''Access denied. Check your permissions'')
         else if response_code err = Some ''503'' then Some (RuntimeError ''S3 503 error (Service Unavailable)'')
         else Some (RuntimeError ''Unexpected error''))"
| "except_clauses EndpointConnectionError = Some (RuntimeError ''Error checking file existence'')"
| "except_clauses FileNotFoundError = Some (RuntimeError ''File not found'')"
| "except_clauses e = None"

text \<open>
  The \<^verbatim>\<open>finally\<close> block, given the state of \<^verbatim>\<open>err\<close> and the exception on its way
  out, if any. Reading an unbound local raises \<^verbatim>\<open>UnboundLocalError\<close>; an exception
  raised here replaces the pending one; when the block ends normally the pending
  exception goes on.
\<close>

fun finally_block :: "exn option local_var \<Rightarrow> exn option \<Rightarrow> exn option" where
  "finally_block Unbound pending = Some UnboundLocalError"
| "finally_block (Bound None) pending = pending"
| "finally_block (Bound (Some e)) pending =
     (case response_code e of
        None \<Rightarrow> Some AttributeError
      | Some code \<Rightarrow>
          if code = ''404'' then Some (SystemExit (ExitInt 12))
          else if code = ''403'' then Some (SystemExit (ExitInt 78))
          else if code \<noteq> ''503'' then Some (SystemExit (ExitInt 1))
          else pending)"

text \<open>The body of \<^verbatim>\<open>download_from_s3\<close>, without the decorator.\<close>

definition download_from_s3_body :: "string \<Rightarrow> store_state \<Rightarrow> exn option \<times> store_state" where
  "download_from_s3_body product_dir s =
     (let err = Bound None;
          (tried, s') = run_try_block product_dir s
      in case tried of
           None \<Rightarrow> (finally_block err None, s')
         | Some e \<Rightarrow>
             (case except_clauses e of
                None \<Rightarrow> (finally_block err (Some e), s')
              | Some raised \<Rightarrow> (finally_block Unbound (Some raised), s')))"

text \<open>
  The decorator \<^verbatim>\<open>@retry(EndpointConnectionError, tries=3, delay=2)\<close>: the call is
  made again, after the delay, only when it raised the named exception and tries
  remain; any other exception, and the named one on the last try, goes on.
\<close>

fun retry :: "nat \<Rightarrow> nat \<Rightarrow> string \<Rightarrow> store_state \<Rightarrow> exn option \<times> store_state" where
  "retry 0 delay product_dir s = (None, s)"
| "retry (Suc n) delay product_dir s =
     (case download_from_s3_body product_dir s of
        (None, s') \<Rightarrow> (None, s')
      | (Some e, s') \<Rightarrow>
          if e = EndpointConnectionError then
            (if n = 0 then (Some e, s')
             else retry n delay product_dir (s'\<lparr>sleeps := sleeps s' @ [delay]\<rparr>))
          else (Some e, s'))"

definition download_from_s3 :: "string \<Rightarrow> store_state \<Rightarrow> exn option \<times> store_state" where
  "download_from_s3 product_dir s = retry 3 2 product_dir s"

text \<open>The loop of \<^verbatim>\<open>download\<close> over the product list.\<close>

fun download_products :: "string list \<Rightarrow> store_state \<Rightarrow> exn option \<times> store_state" where
  "download_products [] s = (None, s)"
| "download_products (info_product # rest) s =
     (case download_from_s3 info_product s of
        (None, s') \<Rightarrow> download_products rest s'
      | (Some e, s') \<Rightarrow> (Some e, s'))"

text \<open>
  \<^verbatim>\<open>download\<close>: \<^verbatim>\<open>query_file\<close> is the attribute (\<^verbatim>\<open>None\<close> when it was never set),
  \<^verbatim>\<open>files\<close> the texts of the readable files. A bare \<^verbatim>\<open>raise\<close> with no exception
  being handled raises \<^verbatim>\<open>RuntimeError\<close>.
\<close>

definition download ::
  "(string \<rightharpoonup> string) \<Rightarrow> string option \<Rightarrow> store_state \<Rightarrow> exn option \<times> store_state" where
  "download files query_file s =
     (case query_file of
        None \<Rightarrow> (Some (SystemExit (ExitInt (- 2))), s)
      | Some path \<Rightarrow>
          (case files path of
             None \<Rightarrow> (Some FileNotFoundError, s)
           | Some text \<Rightarrow>
               (let content = readlines text;
                    product_list = product_list_of content
                in if length product_list > DOWNLOAD_THRESHOLD
                   then (Some (RuntimeError ''No active exception to reraise''), s)
                   else download_products product_list s)))"

section \<open>The catalogue key format\<close>

text \<open>
  The observation date a catalogue key encodes. Under the prefix
  \<^verbatim>\<open>{productType}/{tile}\<close> a key reads \<^verbatim>\<open>/YYYY/MM/DD/\<close> and then the product name
  and the file name; the date is the calendar date these digits give.
\<close>

definition digit_val :: "char \<Rightarrow> nat" where
  "digit_val c = of_char c - 48"

fun parse_ymd :: "string \<Rightarrow> date option" where
  "parse_ymd (y1 # y2 # y3 # y4 # s1 # m1 # m2 # s2 # d1 # d2 # s3 # rest) =
     (if is_digit y1 \<and> is_digit y2 \<and> is_digit y3 \<and> is_digit y4 \<and> s1 = CHR ''/'' \<and>
         is_digit m1 \<and> is_digit m2 \<and> s2 = CHR ''/'' \<and>
         is_digit d1 \<and> is_digit d2 \<and> s3 = CHR ''/''
      then (let d = \<lparr>year = 1000 * digit_val y1 + 100 * digit_val y2 + 10 * digit_val y3 + digit_val y4,
                     month = 10 * digit_val m1 + digit_val m2,
                     day = 10 * digit_val d1 + digit_val d2\<rparr>
            in if valid_date d then Some d else None)
      else None)"
| "parse_ymd s = None"

definition key_date :: "string \<Rightarrow> string \<Rightarrow> date option" where
  "key_date prefix k =
     (if startswith (prefix @ ''/'') k then parse_ymd (drop (length prefix + 1) k) else None)"

section \<open>Properties of the tile validation\<close>

lemma list_of_length_5: "length s = 5 \<Longrightarrow> \<exists>a b c d e. s = [a, b, c, d, e]"
  by (auto simp: length_Suc_conv eval_nat_numeral)

lemma list_of_length_6: "length s = 6 \<Longrightarrow> \<exists>a b c d e f. s = [a, b, c, d, e, f]"
  by (auto simp: length_Suc_conv eval_nat_numeral)

lemma T_not_digit: "\<not> is_digit CHR ''T''"
  by (simp add: is_digit_def)

lemma validate_tile_format_5:
  assumes "length t = 5"
  shows "validate_tile_format t = (if tile_core t then Inr t else Inl (SystemExit (ExitInt (- 2))))"
proof -
  from assms obtain a b c d e where t: "t = [a, b, c, d, e]"
    using list_of_length_5 by blast
  show ?thesis unfolding t by (simp add: validate_tile_format_def tile_core_def)
qed

lemma validate_tile_format_6:
  assumes "length t = 6"
  shows "validate_tile_format t =
     (if t ! 0 = CHR ''T'' \<and> tile_core (tl t) then Inr (tl t) else Inl (SystemExit (ExitInt (- 2))))"
proof -
  from assms obtain a b c d e f where t: "t = [a, b, c, d, e, f]"
    using list_of_length_6 by blast
  show ?thesis unfolding t by (auto simp add: validate_tile_format_def tile_core_def T_not_digit)
qed

lemma validate_tile_format_other:
  "length t \<noteq> 5 \<Longrightarrow> length t \<noteq> 6 \<Longrightarrow> validate_tile_format t = Inl (SystemExit (ExitInt (- 2)))"
  by (simp add: validate_tile_format_def)

lemma validate_tile_format_Inr:
  assumes "validate_tile_format t = Inr r"
  shows "tile_core r \<and> (t = r \<or> t = CHR ''T'' # r)"
proof -
  consider "length t = 5" | "length t = 6" | "length t \<noteq> 5 \<and> length t \<noteq> 6" by blast
  then show ?thesis
  proof cases
    case 1
    with assms show ?thesis by (auto simp: validate_tile_format_5 split: if_splits)
  next
    case 2
    then obtain a b c d e f where t: "t = [a, b, c, d, e, f]"
      using list_of_length_6 by blast
    from 2 assms show ?thesis by (auto simp: validate_tile_format_6 t split: if_splits)
  next
    case 3
    with assms show ?thesis by (simp add: validate_tile_format_other)
  qed
qed

lemma upper_char_digit: "is_digit c \<Longrightarrow> upper_char c = c"
proof -
  assume "is_digit c"
  then have "c \<le> CHR ''9''" by (simp add: is_digit_def)
  moreover have "CHR ''9'' < CHR ''a''" by simp
  ultimately have "\<not> CHR ''a'' \<le> c" by (meson leD le_less_trans)
  then show ?thesis by (simp add: upper_char_def)
qed

lemma upper_char_AZ: "is_AZ c \<Longrightarrow> upper_char c = c"
proof -
  assume "is_AZ c"
  then have "c \<le> CHR ''Z''" by (simp add: is_AZ_def)
  moreover have "CHR ''Z'' < CHR ''a''" by simp
  ultimately have "\<not> CHR ''a'' \<le> c" by (meson leD le_less_trans)
  then show ?thesis by (simp add: upper_char_def)
qed

lemma upper_tile_core:
  assumes "tile_core s"
  shows "upper s = s"
proof -
  from assms obtain a b c d e where s: "s = [a, b, c, d, e]"
    using list_of_length_5 tile_core_def by blast
  from assms show ?thesis
    unfolding s by (simp add: tile_core_def upper_def upper_char_digit upper_char_AZ)
qed

lemma tile_core_head:
  assumes "tile_core r"
  shows "is_digit (r ! 0) \<and> r ! 0 \<noteq> CHR ''T''"
  using assms T_not_digit by (auto simp: tile_core_def)

lemma validate_tiles_set:
  "validate_tiles ts = Inr rs \<Longrightarrow> x \<in> set rs \<Longrightarrow> tile_core x"
proof (induction ts arbitrary: rs)
  case Nil
  then show ?case by simp
next
  case (Cons t ts)
  from Cons.prems(1) obtain m ms where m: "validate_tile_format t = Inr m"
    and ms: "validate_tiles ts = Inr ms" and rs: "rs = upper m # ms"
    by (auto split: sum.splits)
  from m have "tile_core m" using validate_tile_format_Inr by blast
  then have "tile_core (upper m)" by (simp add: upper_tile_core)
  with Cons.IH [OF ms] Cons.prems(2) rs show ?case by auto
qed

lemma resolve_tiles_set:
  "resolve_tiles ts = Inr rs \<Longrightarrow> x \<in> set rs \<Longrightarrow> tile_core x"
  by (auto simp: resolve_tiles_def split: sum.splits if_splits dest: validate_tiles_set)

lemma resolve_tiles_core:
  assumes "tile_core r"
  shows "resolve_tiles [r] = Inr [r]"
  using assms by (simp add: resolve_tiles_def validate_tile_format_5 tile_core_def upper_tile_core)

lemma resolve_tiles_T_core:
  assumes "tile_core r"
  shows "resolve_tiles [CHR ''T'' # r] = Inr [r]"
  using assms by (simp add: resolve_tiles_def validate_tile_format_6 tile_core_def upper_tile_core)

lemma validate_T31TCH: "validate_tile_format ''T31TCH'' = Inr ''31TCH''"
  by (simp add: validate_tile_format_def is_digit_def is_AZ_def)

lemma resolve_T31TCH: "resolve_tiles [''T31TCH''] = Inr [''31TCH'']"
  by (simp add: resolve_tiles_def upper_def upper_char_def validate_tile_format_def
      is_digit_def is_AZ_def)

text \<open>
  C10. Whatever \<^verbatim>\<open>validate_tile_format\<close> returns is the five-character identifier
  itself: two digits and three capital letters. The text given is either that identifier
  or that identifier after a \<^verbatim>\<open>T\<close>, so a leading \<^verbatim>\<open>T\<close> is always dropped, and
  \<^verbatim>\<open>upper\<close> changes nothing. Every tile that \<^verbatim>\<open>build_query\<close> keeps for the key
  prefixes therefore has length 5 and starts with two digits, never with \<^verbatim>\<open>T\<close>.
\<close>

theorem validate_tile_format_strips_T:
  "(validate_tile_format t = Inr r \<longrightarrow>
      length r = 5 \<and> is_digit (r ! 0) \<and> is_digit (r ! 1) \<and>
      is_AZ (r ! 2) \<and> is_AZ (r ! 3) \<and> is_AZ (r ! 4) \<and> r ! 0 \<noteq> CHR ''T'' \<and>
      (t = r \<or> t = CHR ''T'' # r) \<and> upper r = r) \<and>
   (resolve_tiles ts = Inr rs \<longrightarrow>
      (\<forall>x \<in> set rs. length x = 5 \<and> is_digit (x ! 0) \<and> is_digit (x ! 1) \<and> x ! 0 \<noteq> CHR ''T''))"
proof (intro conjI impI)
  assume rs: "resolve_tiles ts = Inr rs"
  show "\<forall>x \<in> set rs. length x = 5 \<and> is_digit (x ! 0) \<and> is_digit (x ! 1) \<and> x ! 0 \<noteq> CHR ''T''"
  proof
    fix x assume "x \<in> set rs"
    with rs have "tile_core x" by (rule resolve_tiles_set)
    then show "length x = 5 \<and> is_digit (x ! 0) \<and> is_digit (x ! 1) \<and> x ! 0 \<noteq> CHR ''T''"
      using tile_core_head by (simp add: tile_core_def)
  qed
next
  assume "validate_tile_format t = Inr r"
  then have c: "tile_core r" and tr: "t = r \<or> t = CHR ''T'' # r"
    using validate_tile_format_Inr by blast+
  from c show "length r = 5" "is_digit (r ! 0)" "is_digit (r ! 1)"
    "is_AZ (r ! 2)" "is_AZ (r ! 3)" "is_AZ (r ! 4)"
    by (simp_all add: tile_core_def)
  from c show "r ! 0 \<noteq> CHR ''T''" using tile_core_head by blast
  from tr show "t = r \<or> t = CHR ''T'' # r" by simp
  from c show "upper r = r" by (rule upper_tile_core)
qed

theorem validate_tile_format_strips_T_witness:
  "validate_tile_format ''T31TCH'' = Inr ''31TCH'' \<and>
   resolve_tiles [''T31TCH''] = Inr [''31TCH''] \<and>
   length ''31TCH'' = 5 \<and> upper ''31TCH'' = ''31TCH'' \<and>
   is_digit (''31TCH'' ! 0) \<and> is_digit (''31TCH'' ! 1) \<and> ''31TCH'' ! 0 \<noteq> CHR ''T''"
  using validate_tile_format_strips_T [of "''T31TCH''" "''31TCH''" "[''T31TCH'']" "[''31TCH'']"]
    validate_T31TCH resolve_T31TCH
  by simp

text \<open>
  C6, as stated: resolving the singleton of a text that matches the pattern gives the
  singleton of that text in upper case. It fails for a text with the leading \<^verbatim>\<open>T\<close>:
  the \<^verbatim>\<open>T\<close> is not part of what is returned.
\<close>

theorem resolve_tiles_singleton_counterexample:
  "tile_pattern ''T31TCH'' \<and> resolve_tiles [''T31TCH''] \<noteq> Inr [upper ''T31TCH'']"
  by (simp add: tile_pattern_def tile_core_def resolve_tiles_def upper_def upper_char_def
      validate_tile_format_def is_digit_def is_AZ_def)

text \<open>
  C6, amended. For every text that matches the pattern, resolving its singleton gives
  the singleton of its last five characters (the identifier without the optional
  \<^verbatim>\<open>T\<close>), which is already in upper case; resolving that result again gives it back
  unchanged; and for a text of length 5 the result is the text itself.
\<close>

theorem resolve_tiles_singleton:
  assumes "tile_pattern s"
  shows "resolve_tiles [s] = Inr [drop (length s - 5) s] \<and>
         resolve_tiles [drop (length s - 5) s] = Inr [drop (length s - 5) s] \<and>
         upper (drop (length s - 5) s) = drop (length s - 5) s \<and>
         (length s = 5 \<longrightarrow> resolve_tiles [s] = Inr [upper s])"
proof -
  from assms consider "tile_core s" | "length s = 6" "s ! 0 = CHR ''T''" "tile_core (tl s)"
    by (auto simp: tile_pattern_def)
  then show ?thesis
  proof cases
    case 1
    then have "drop (length s - 5) s = s" by (simp add: tile_core_def)
    with 1 show ?thesis by (simp add: resolve_tiles_core upper_tile_core)
  next
    case 2
    then obtain a b c d e f where s: "s = [a, b, c, d, e, f]"
      using list_of_length_6 by blast
    from 2 have s': "s = CHR ''T'' # tl s" by (simp add: s)
    have d: "drop (length s - 5) s = tl s" by (simp add: s)
    from 2 have "resolve_tiles [CHR ''T'' # tl s] = Inr [tl s]" "resolve_tiles [tl s] = Inr [tl s]"
      "upper (tl s) = tl s"
      by (simp_all add: resolve_tiles_core resolve_tiles_T_core upper_tile_core)
    with s' 2(1) show ?thesis unfolding d by simp
  qed
qed

theorem resolve_tiles_singleton_witness:
  "tile_pattern ''T31TCH'' \<and> resolve_tiles [''T31TCH''] = Inr [''31TCH''] \<and>
   tile_pattern ''31TCH'' \<and> length ''31TCH'' = 5 \<and>
   resolve_tiles [''31TCH''] = Inr [upper ''31TCH''] \<and>
   resolve_tiles [''31TCH''] = Inr [''31TCH'']"
  using resolve_tiles_singleton [of "''T31TCH''"] resolve_tiles_singleton [of "''31TCH''"]
  by (simp add: tile_pattern_def tile_core_def is_digit_def is_AZ_def)

section \<open>Properties of the validation exits\<close>

lemma objects_filter_single:
  "objects_filter [obj] prefix mk =
     (if startswith prefix (key obj) \<and> (case mk of None \<Rightarrow> True | Some m \<Rightarrow> m < key obj)
      then [obj] else [])"
  by (simp add: objects_filter_def)

text \<open>
  C4 says that every validation failure ends the process with exit status -2. An unknown
  product type does not: \<^verbatim>\<open>validate_product_type\<close> calls \<^verbatim>\<open>sys.exit("-2")\<close> with a
  string, so the exit status is 1, while a badly formatted tile, which goes through
  \<^verbatim>\<open>sys.exit(-2)\<close>, gives -2.
\<close>

theorem validate_product_type_exit:
  "build_query [\<lparr>key = ''FSC/31TCH/2025/02/01/P1/a.tif'', size_bytes = 10\<rparr>]
     [''31TCH''] [''XYZ'']
     (Some \<lparr>year = 2025, month = 2, day = 1\<rparr>) (Some \<lparr>year = 2025, month = 2, day = 1\<rparr>)
     = Inl (SystemExit (ExitStr ''-2'')) \<and>
   exit_status (Some (SystemExit (ExitStr ''-2''))) = 1 \<and>
   validate_tile_format ''31tch'' = Inl (SystemExit (ExitInt (- 2))) \<and>
   exit_status (Some (SystemExit (ExitInt (- 2)))) = - 2"
  by (simp add: build_query_def resolve_tiles_def validate_tile_format_def is_digit_def is_AZ_def
      upper_def upper_char_def validate_product_type_def objects_filter_single startswith_def)

section \<open>Properties of the download\<close>

lemma except_clauses_endpoint: "except_clauses e = None \<Longrightarrow> e \<noteq> EndpointConnectionError"
  by (cases e) auto

lemma run_try_block_effect:
  "run_try_block p s = (r, s') \<Longrightarrow> attempts s' = attempts s @ [p] \<and> sleeps s' = sleeps s"
  by (auto simp: run_try_block_def split: list.splits)

lemma download_from_s3_body_effect:
  assumes "download_from_s3_body p s = (r, s')"
  shows "r \<noteq> Some EndpointConnectionError \<and> attempts s' = attempts s @ [p] \<and> sleeps s' = sleeps s"
proof -
  obtain t st where t: "run_try_block p s = (t, st)" by (cases "run_try_block p s")
  then have eff: "attempts st = attempts s @ [p] \<and> sleeps st = sleeps s"
    by (rule run_try_block_effect)
  show ?thesis
  proof (cases t)
    case None
    with assms t eff show ?thesis by (simp add: download_from_s3_body_def)
  next
    case (Some e)
    show ?thesis
    proof (cases "except_clauses e")
      case None
      with assms t eff Some except_clauses_endpoint [OF None] show ?thesis
        by (auto simp add: download_from_s3_body_def)
    next
      case (Some raised)
      with assms t eff \<open>t = Some e\<close> show ?thesis
        by (auto simp add: download_from_s3_body_def)
    qed
  qed
qed

lemma download_from_s3_single_attempt:
  "download_from_s3 p s = download_from_s3_body p s"
proof -
  obtain r s' where b: "download_from_s3_body p s = (r, s')"
    by (cases "download_from_s3_body p s")
  then have "r \<noteq> Some EndpointConnectionError" using download_from_s3_body_effect by blast
  with b show ?thesis
    by (cases r) (simp_all add: download_from_s3_def eval_nat_numeral)
qed

lemma download_from_s3_handled:
  assumes "except_clauses e \<noteq> None"
  shows "download_from_s3 p (s\<lparr>script := Some e # rest\<rparr>) =
         (Some UnboundLocalError, s\<lparr>script := rest, attempts := attempts s @ [p]\<rparr>)"
  using assms
  by (auto simp: download_from_s3_single_attempt download_from_s3_body_def run_try_block_def)

text \<open>
  C2 says that a 503 or an endpoint failure is tried again, up to three attempts two
  seconds apart, and that a product which succeeds on a later attempt counts as
  downloaded. The code never tries again: the decorated function is the undecorated one,
  it runs the \<^verbatim>\<open>try\<close> block once and never sleeps, whatever the store answers. With
  a 503 on the first two attempts and a success ready for the third, and likewise with an
  endpoint failure followed by a success, the single attempt made ends in
  \<^verbatim>\<open>UnboundLocalError\<close>.
\<close>

theorem download_from_s3_never_retries:
  "download_from_s3 product_dir s = download_from_s3_body product_dir s \<and>
   attempts (snd (download_from_s3 product_dir s)) = attempts s @ [product_dir] \<and>
   sleeps (snd (download_from_s3 product_dir s)) = sleeps s \<and>
   download_from_s3 ''P1'' \<lparr>script = [Some (ClientError ''503''), Some (ClientError ''503''), None],
                            attempts = [], sleeps = []\<rparr> =
     (Some UnboundLocalError,
      \<lparr>script = [Some (ClientError ''503''), None], attempts = [''P1''], sleeps = []\<rparr>) \<and>
   download_from_s3 ''P1'' \<lparr>script = [Some EndpointConnectionError, None],
                            attempts = [], sleeps = []\<rparr> =
     (Some UnboundLocalError, \<lparr>script = [None], attempts = [''P1''], sleeps = []\<rparr>)"
proof -
  obtain r s' where b: "download_from_s3_body product_dir s = (r, s')"
    by (cases "download_from_s3_body product_dir s")
  then have "attempts s' = attempts s @ [product_dir] \<and> sleeps s' = sleeps s"
    using download_from_s3_body_effect by blast
  with b show ?thesis
    by (simp add: download_from_s3_single_attempt download_from_s3_body_def run_try_block_def
        exn_eq_str_def)
qed

text \<open>
  C3 says that a failed download ends the process with exit status 12 for not-found and
  78 for access-denied. In the code a \<^verbatim>\<open>ClientError\<close> with any response code leaves
  \<^verbatim>\<open>download_from_s3\<close> as \<^verbatim>\<open>UnboundLocalError\<close>, which ends the process with exit
  status 1: so does an access-denied answer for the second product of a query file after
  the first was downloaded, and so does a not-found answer.
\<close>

theorem download_failure_exit_status:
  "download_from_s3 product_dir (s\<lparr>script := Some (ClientError code) # rest\<rparr>) =
     (Some UnboundLocalError, s\<lparr>script := rest, attempts := attempts s @ [product_dir]\<rparr>) \<and>
   exit_status (Some UnboundLocalError) = 1 \<and>
   download [''query_file.txt'' \<mapsto> ''P1'' @ [CHR 0x0A] @ ''P2'' @ [CHR 0x0A]]
       (Some ''query_file.txt'')
       \<lparr>script = [None, Some (ClientError ''403'')], attempts = [], sleeps = []\<rparr> =
     (Some UnboundLocalError, \<lparr>script = [], attempts = [''P1'', ''P2''], sleeps = []\<rparr>) \<and>
   exit_status (fst (download [''query_file.txt'' \<mapsto> ''P1'' @ [CHR 0x0A]]
       (Some ''query_file.txt'')
       \<lparr>script = [Some (ClientError ''404'')], attempts = [], sleeps = []\<rparr>)) = 1"
proof -
  have a: "download_from_s3 product_dir (s\<lparr>script := Some (ClientError code) # rest\<rparr>) =
     (Some UnboundLocalError, s\<lparr>script := rest, attempts := attempts s @ [product_dir]\<rparr>)"
    by (rule download_from_s3_handled) (simp add: exn_eq_str_def)
  have b: "download [''query_file.txt'' \<mapsto> ''P1'' @ [CHR 0x0A] @ ''P2'' @ [CHR 0x0A]]
       (Some ''query_file.txt'')
       \<lparr>script = [None, Some (ClientError ''403'')], attempts = [], sleeps = []\<rparr> =
     (Some UnboundLocalError, \<lparr>script = [], attempts = [''P1'', ''P2''], sleeps = []\<rparr>)"
    by (simp add: download_def readlines_def product_list_of_def strip_def is_space_def
        DOWNLOAD_THRESHOLD_def download_from_s3_single_attempt download_from_s3_body_def
        run_try_block_def exn_eq_str_def)
  have c: "exit_status (fst (download [''query_file.txt'' \<mapsto> ''P1'' @ [CHR 0x0A]]
       (Some ''query_file.txt'')
       \<lparr>script = [Some (ClientError ''404'')], attempts = [], sleeps = []\<rparr>)) = 1"
    by (simp add: download_def readlines_def product_list_of_def strip_def is_space_def
        DOWNLOAD_THRESHOLD_def download_from_s3_single_attempt download_from_s3_body_def
        run_try_block_def exn_eq_str_def)
  from a b c show ?thesis by simp
qed

section \<open>Properties of the query\<close>

text \<open>
  C7 says that no product directory appears twice in the query file, even when a product
  type and tile are requested more than once. \<^verbatim>\<open>build_query\<close> keeps one copy of each
  tile but every copy of a product type, and \<^verbatim>\<open>execute_request\<close> appends the products
  of each pair to the total list as they are: with the product type given twice, the one
  product of the bucket is listed twice.
\<close>

theorem execute_request_duplicates:
  "build_query [\<lparr>key = ''FSC/31TCH/2025/02/01/P1/a.tif'', size_bytes = 10\<rparr>]
     [''T31TCH'', ''31TCH''] [''FSC'', ''FSC'']
     (Some \<lparr>year = 2025, month = 2, day = 1\<rparr>) (Some \<lparr>year = 2025, month = 2, day = 1\<rparr>)
     = Inr \<lparr>tiles = [''31TCH''], productType = [''FSC'', ''FSC''],
            start_date = \<lparr>year = 2025, month = 2, day = 1\<rparr>,
            end_date = \<lparr>year = 2025, month = 2, day = 1\<rparr>\<rparr> \<and>
   execute_request [\<lparr>key = ''FSC/31TCH/2025/02/01/P1/a.tif'', size_bytes = 10\<rparr>]
     \<lparr>tiles = [''31TCH''], productType = [''FSC'', ''FSC''],
      start_date = \<lparr>year = 2025, month = 2, day = 1\<rparr>,
      end_date = \<lparr>year = 2025, month = 2, day = 1\<rparr>\<rparr>
     = Inr \<lparr>total_list_products = [''FSC/31TCH/2025/02/01/P1'', ''FSC/31TCH/2025/02/01/P1''],
            total_size_b = 20, warn_no_product = False, warn_threshold = False,
            query_file_text = ''FSC/31TCH/2025/02/01/P1'' @ [CHR 0x0A] @
                              ''FSC/31TCH/2025/02/01/P1'' @ [CHR 0x0A]\<rparr> \<and>
   \<not> distinct [''FSC/31TCH/2025/02/01/P1'', ''FSC/31TCH/2025/02/01/P1'']"
  by code_simp

section \<open>Properties of the end marker\<close>

lemma date_eq_iff: "(a::date) = b \<longleftrightarrow> year a = year b \<and> month a = month b \<and> day a = day b"
  by (cases a, cases b) simp

lemma date_max_iff: "e = date_max \<longleftrightarrow> year e = 9999 \<and> month e = 12 \<and> day e = 31"
  by (simp add: date_eq_iff date_max_def)

lemma days_in_month_bounds: "28 \<le> days_in_month y m \<and> days_in_month y m \<le> 31"
  by (simp add: days_in_month_def)

lemma days_in_month_12: "days_in_month y 12 = 31"
  by (simp add: days_in_month_def)

lemma add_one_day_max: "add_one_day e = Inl OverflowError \<longleftrightarrow> e = date_max"
  by (auto simp: add_one_day_def date_max_iff)

lemma valid_date_day: "valid_date x \<Longrightarrow> 1 \<le> day x \<and> day x \<le> days_in_month (year x) (month x) \<and> day x \<le> 31
   \<and> 1 \<le> month x \<and> month x \<le> 12 \<and> 1 \<le> year x \<and> year x \<le> 9999"
  using days_in_month_bounds [of "year x" "month x"] by (auto simp: valid_date_def)

lemma add_one_day_next:
  assumes v: "valid_date e" and nm: "e \<noteq> date_max"
  shows "\<exists>d. add_one_day e = Inr d \<and> valid_date d \<and> date_less e d \<and>
             (\<forall>x. valid_date x \<longrightarrow> (date_less e x \<longleftrightarrow> date_le d x))"
proof -
  note ve = valid_date_day [OF v]
  consider (a) "day e < days_in_month (year e) (month e)"
    | (b) "day e = days_in_month (year e) (month e)" "month e < 12"
    | (c) "day e = days_in_month (year e) (month e)" "month e = 12"
    using ve by linarith
  then show ?thesis
  proof cases
    case a
    let ?d = "e\<lparr>day := day e + 1\<rparr>"
    from a nm have 1: "add_one_day e = Inr ?d" by (auto simp: add_one_day_def date_max_iff)
    from a v have 2: "valid_date ?d" by (simp add: valid_date_def)
    have 3: "date_less e ?d" by (simp add: date_less_def)
    have 4: "\<forall>x. valid_date x \<longrightarrow> (date_less e x \<longleftrightarrow> date_le ?d x)"
      by (auto simp: date_less_def date_le_def)
    from 1 2 3 4 show ?thesis by blast
  next
    case b
    let ?d = "e\<lparr>month := month e + 1, day := 1\<rparr>"
    from b have 1: "add_one_day e = Inr ?d" by (auto simp: add_one_day_def)
    from b ve days_in_month_bounds [of "year e" "month e + 1"] have 2: "valid_date ?d"
      by (simp add: valid_date_def)
    from b ve have 3: "date_less e ?d" by (simp add: date_less_def)
    have 4: "\<forall>x. valid_date x \<longrightarrow> (date_less e x \<longleftrightarrow> date_le ?d x)"
    proof (intro allI impI)
      fix x assume "valid_date x"
      note vx = valid_date_day [OF this]
      from b vx show "date_less e x \<longleftrightarrow> date_le ?d x"
        by (auto simp: date_less_def date_le_def)
    qed
    from 1 2 3 4 show ?thesis by blast
  next
    case c
    let ?d = "e\<lparr>year := year e + 1, month := 1, day := 1\<rparr>"
    from c have d31: "day e = 31" by (simp add: days_in_month_12)
    with c nm ve have y: "year e < 9999" by (simp add: date_max_iff)
    from c d31 y have 1: "add_one_day e = Inr ?d" by (auto simp: add_one_day_def)
    from y ve have 2: "valid_date ?d" by (simp add: valid_date_def days_in_month_def)
    have 3: "date_less e ?d" by (simp add: date_less_def)
    have 4: "\<forall>x. valid_date x \<longrightarrow> (date_less e x \<longleftrightarrow> date_le ?d x)"
    proof (intro allI impI)
      fix x assume "valid_date x"
      note vx = valid_date_day [OF this]
      from c d31 vx show "date_less e x \<longleftrightarrow> date_le ?d x"
        by (auto simp: date_less_def date_le_def)
    qed
    from 1 2 3 4 show ?thesis by blast
  qed
qed

text \<open>
  C8, as stated: with the last representable date as end date the listing goes on, with
  an open upper bound. It does not: \<^verbatim>\<open>validate_dates\<close> accepts the date, and
  \<^verbatim>\<open>execute_request\<close> fails with \<^verbatim>\<open>OverflowError\<close> when it adds the day.
\<close>

theorem end_marker_counterexample:
  "valid_date date_max \<and>
   build_query [\<lparr>key = ''FSC/31TCH/2025/02/01/P1/a.tif'', size_bytes = 10\<rparr>]
     [''31TCH''] [''FSC''] (Some \<lparr>year = 2025, month = 2, day = 1\<rparr>) (Some date_max)
     = Inr \<lparr>tiles = [''31TCH''], productType = [''FSC''],
            start_date = \<lparr>year = 2025, month = 2, day = 1\<rparr>, end_date = date_max\<rparr> \<and>
   execute_request [\<lparr>key = ''FSC/31TCH/2025/02/01/P1/a.tif'', size_bytes = 10\<rparr>]
     \<lparr>tiles = [''31TCH''], productType = [''FSC''],
      start_date = \<lparr>year = 2025, month = 2, day = 1\<rparr>, end_date = date_max\<rparr>
     = Inl OverflowError"
  by code_simp

text \<open>
  C8, amended. The day after the end date never wraps. For the last representable date
  the addition raises \<^verbatim>\<open>OverflowError\<close> and \<^verbatim>\<open>execute_request\<close> fails with it,
  whatever the bucket and the other parameters. For every other valid end date the end
  marker date is a valid date strictly after it, and it is the next one: a valid date
  is after the end date exactly when it is on or after the marker date.
\<close>

theorem end_marker_no_wrap:
  assumes "valid_date e"
  shows "(e = date_max \<longrightarrow>
            add_one_day e = Inl OverflowError \<and>
            execute_request bucket (request\<lparr>end_date := e\<rparr>) = Inl OverflowError) \<and>
         (e \<noteq> date_max \<longrightarrow>
            (\<exists>d. add_one_day e = Inr d \<and> valid_date d \<and> date_less e d \<and>
                 (\<forall>x. valid_date x \<longrightarrow> (date_less e x \<longleftrightarrow> date_le d x))))"
proof (intro conjI impI)
  assume "e = date_max"
  then show "add_one_day e = Inl OverflowError" by (simp add: add_one_day_max)
  then show "execute_request bucket (request\<lparr>end_date := e\<rparr>) = Inl OverflowError"
    by (simp add: execute_request_def)
next
  assume "e \<noteq> date_max"
  with assms show "\<exists>d. add_one_day e = Inr d \<and> valid_date d \<and> date_less e d \<and>
                 (\<forall>x. valid_date x \<longrightarrow> (date_less e x \<longleftrightarrow> date_le d x))"
    by (rule add_one_day_next)
qed

theorem end_marker_no_wrap_witness:
  "valid_date date_max \<and> add_one_day date_max = Inl OverflowError \<and>
   execute_request [] \<lparr>tiles = [''31TCH''], productType = [''FSC''],
      start_date = \<lparr>year = 2025, month = 2, day = 1\<rparr>, end_date = date_max\<rparr> = Inl OverflowError \<and>
   valid_date \<lparr>year = 2024, month = 2, day = 29\<rparr> \<and>
   \<lparr>year = 2024, month = 2, day = 29\<rparr> \<noteq> date_max \<and>
   (\<exists>d. add_one_day \<lparr>year = 2024, month = 2, day = 29\<rparr> = Inr d \<and> valid_date d \<and>
        d = \<lparr>year = 2024, month = 3, day = 1\<rparr> \<and>
        date_less \<lparr>year = 2024, month = 2, day = 29\<rparr> d)"
proof -
  let ?rq = "\<lparr>tiles = [''31TCH''], productType = [''FSC''],
      start_date = \<lparr>year = 2025, month = 2, day = 1\<rparr>, end_date = \<lparr>year = 1, month = 1, day = 1\<rparr>\<rparr>"
  let ?e = "\<lparr>year = 2024, month = 2, day = 29\<rparr>"
  have v1: "valid_date date_max"
    by (simp add: valid_date_def date_max_def days_in_month_def)
  have v2: "valid_date ?e"
    by (simp add: valid_date_def days_in_month_def is_leap_def)
  have ne: "?e \<noteq> date_max" by (simp add: date_max_def)
  have ev: "add_one_day ?e = Inr \<lparr>year = 2024, month = 3, day = 1\<rparr>"
    by (simp add: add_one_day_def days_in_month_def is_leap_def)
  from end_marker_no_wrap [OF v1, of "[]" ?rq]
  have a: "add_one_day date_max = Inl OverflowError \<and>
           execute_request [] (?rq\<lparr>end_date := date_max\<rparr>) = Inl OverflowError"
    by simp
  from end_marker_no_wrap [OF v2, of "[]" ?rq] ne ev
  have b: "valid_date \<lparr>year = 2024, month = 3, day = 1\<rparr> \<and>
           date_less ?e \<lparr>year = 2024, month = 3, day = 1\<rparr>"
    by simp
  from v1 v2 ne ev a b show ?thesis by simp
qed

section \<open>Properties of the query file\<close>

lemma readlines_from_line:
  "CHR 0x0A \<notin> set p \<Longrightarrow> CHR 0x0D \<notin> set p \<Longrightarrow>
   readlines_from cur (p @ CHR 0x0A # rest) = (cur @ p @ [CHR 0x0A]) # readlines_from [] rest"
  by (induction p arbitrary: cur) auto

lemma readlines_writelines:
  "\<forall>p \<in> set ps. CHR 0x0A \<notin> set p \<and> CHR 0x0D \<notin> set p \<Longrightarrow>
   readlines (writelines (map (\<lambda>res. res @ [CHR 0x0A]) ps)) = map (\<lambda>res. res @ [CHR 0x0A]) ps"
  unfolding readlines_def writelines_def
  by (induction ps) (simp_all add: readlines_from_line)

lemma is_space_newline: "is_space (CHR 0x0A)"
  by (simp add: is_space_def)

lemma strip_line:
  assumes "p \<noteq> []" "\<not> is_space (hd p)" "\<not> is_space (last p)"
  shows "strip (p @ [CHR 0x0A]) = p"
proof -
  from assms have a: "dropWhile is_space (p @ [CHR 0x0A]) = p @ [CHR 0x0A]"
    by (cases p) simp_all
  from assms have b: "dropWhile is_space (rev p) = rev p"
    by (cases "rev p") (simp_all add: hd_rev)
  show ?thesis
    by (simp add: strip_def a b is_space_newline)
qed

lemma product_list_of_lines:
  "\<forall>p \<in> set ps. clean_line p \<Longrightarrow>
   product_list_of (map (\<lambda>res. res @ [CHR 0x0A]) ps) = ps"
  unfolding product_list_of_def
  by (induction ps) (simp_all add: strip_line clean_line_def)

lemma read_back:
  assumes "\<forall>p \<in> set ps. clean_line p"
  shows "product_list_of (readlines (writelines (map (\<lambda>res. res @ [CHR 0x0A]) ps))) = ps"
proof -
  from assms have "\<forall>p \<in> set ps. CHR 0x0A \<notin> set p \<and> CHR 0x0D \<notin> set p"
    by (simp add: clean_line_def)
  then show ?thesis using assms by (simp add: readlines_writelines product_list_of_lines)
qed

lemma execute_request_P1_space:
  "execute_request [\<lparr>key = ''FSC/31TCH/2025/02/01/P1 /a.tif'', size_bytes = 10\<rparr>]
     \<lparr>tiles = [''31TCH''], productType = [''FSC''],
      start_date = \<lparr>year = 2025, month = 2, day = 1\<rparr>,
      end_date = \<lparr>year = 2025, month = 2, day = 1\<rparr>\<rparr>
     = Inr \<lparr>total_list_products = [''FSC/31TCH/2025/02/01/P1 ''],
            total_size_b = 10, warn_no_product = False, warn_threshold = False,
            query_file_text = ''FSC/31TCH/2025/02/01/P1 '' @ [CHR 0x0A]\<rparr>"
  by code_simp

lemma execute_request_P1:
  "execute_request [\<lparr>key = ''FSC/31TCH/2025/02/01/P1/a.tif'', size_bytes = 10\<rparr>]
     \<lparr>tiles = [''31TCH''], productType = [''FSC''],
      start_date = \<lparr>year = 2025, month = 2, day = 1\<rparr>,
      end_date = \<lparr>year = 2025, month = 2, day = 1\<rparr>\<rparr>
     = Inr \<lparr>total_list_products = [''FSC/31TCH/2025/02/01/P1''],
            total_size_b = 10, warn_no_product = False, warn_threshold = False,
            query_file_text = ''FSC/31TCH/2025/02/01/P1'' @ [CHR 0x0A]\<rparr>"
  by code_simp

text \<open>
  C9, as stated: what is read back from the query file is, as a set, what the query
  found. It fails for a product directory that ends in a space: \<^verbatim>\<open>strip\<close> removes
  the space when the file is read.
\<close>

theorem query_file_round_trip_counterexample:
  "execute_request [\<lparr>key = ''FSC/31TCH/2025/02/01/P1 /a.tif'', size_bytes = 10\<rparr>]
     \<lparr>tiles = [''31TCH''], productType = [''FSC''],
      start_date = \<lparr>year = 2025, month = 2, day = 1\<rparr>,
      end_date = \<lparr>year = 2025, month = 2, day = 1\<rparr>\<rparr>
     = Inr \<lparr>total_list_products = [''FSC/31TCH/2025/02/01/P1 ''],
            total_size_b = 10, warn_no_product = False, warn_threshold = False,
            query_file_text = ''FSC/31TCH/2025/02/01/P1 '' @ [CHR 0x0A]\<rparr> \<and>
   product_list_of (readlines (''FSC/31TCH/2025/02/01/P1 '' @ [CHR 0x0A])) =
     [''FSC/31TCH/2025/02/01/P1''] \<and>
   set [''FSC/31TCH/2025/02/01/P1''] \<noteq> set [''FSC/31TCH/2025/02/01/P1 '']"
proof -
  have "product_list_of (readlines (''FSC/31TCH/2025/02/01/P1 '' @ [CHR 0x0A])) =
     [''FSC/31TCH/2025/02/01/P1'']"
    by (simp add: readlines_def product_list_of_def strip_def is_space_def)
  then show ?thesis using execute_request_P1_space by simp
qed

text \<open>
  C9, amended. When no product directory of the query result is empty, starts or ends
  with whitespace, or contains a line break, reading the query file back gives the
  product list of the query, in the same order; in particular the same set.
\<close>

theorem query_file_round_trip:
  assumes "execute_request bucket request = Inr r"
    and "\<forall>p \<in> set (total_list_products r). clean_line p"
  shows "product_list_of (readlines (query_file_text r)) = total_list_products r \<and>
         set (product_list_of (readlines (query_file_text r))) = set (total_list_products r)"
proof -
  from assms(1) have "query_file_text r =
      writelines (map (\<lambda>res. res @ [CHR 0x0A]) (total_list_products r))"
    by (auto simp: execute_request_def split: sum.splits prod.splits)
  with assms(2) show ?thesis by (simp add: read_back)
qed

theorem query_file_round_trip_witness:
  "execute_request [\<lparr>key = ''FSC/31TCH/2025/02/01/P1/a.tif'', size_bytes = 10\<rparr>]
     \<lparr>tiles = [''31TCH''], productType = [''FSC''],
      start_date = \<lparr>year = 2025, month = 2, day = 1\<rparr>,
      end_date = \<lparr>year = 2025, month = 2, day = 1\<rparr>\<rparr>
     = Inr \<lparr>total_list_products = [''FSC/31TCH/2025/02/01/P1''],
            total_size_b = 10, warn_no_product = False, warn_threshold = False,
            query_file_text = ''FSC/31TCH/2025/02/01/P1'' @ [CHR 0x0A]\<rparr> \<and>
   clean_line ''FSC/31TCH/2025/02/01/P1'' \<and>
   product_list_of (readlines (''FSC/31TCH/2025/02/01/P1'' @ [CHR 0x0A])) =
     [''FSC/31TCH/2025/02/01/P1'']"
proof -
  have c: "clean_line ''FSC/31TCH/2025/02/01/P1''"
    by (simp add: clean_line_def is_space_def)
  from query_file_round_trip [OF execute_request_P1] c execute_request_P1
  show ?thesis by simp
qed

section \<open>Properties of the threshold\<close>

lemma download_products_attempts_prefix:
  "\<exists>xs. attempts (snd (download_products ps s)) = attempts s @ xs"
proof (induction ps arbitrary: s)
  case Nil
  then show ?case by simp
next
  case (Cons p ps)
  obtain r s' where d: "download_from_s3 p s = (r, s')" by (cases "download_from_s3 p s")
  then have a: "attempts s' = attempts s @ [p]"
    using download_from_s3_body_effect by (simp add: download_from_s3_single_attempt)
  show ?case
  proof (cases r)
    case None
    from Cons.IH [of s'] obtain xs where "attempts (snd (download_products ps s')) = attempts s' @ xs"
      by blast
    with d None a show ?thesis by simp
  next
    case (Some e)
    with d a show ?thesis by simp
  qed
qed

lemma download_products_first_attempt:
  "\<exists>xs. attempts (snd (download_products (p # ps) s)) = attempts s @ p # xs"
proof -
  obtain r s' where d: "download_from_s3 p s = (r, s')" by (cases "download_from_s3 p s")
  then have a: "attempts s' = attempts s @ [p]"
    using download_from_s3_body_effect by (simp add: download_from_s3_single_attempt)
  show ?thesis
  proof (cases r)
    case None
    from download_products_attempts_prefix [of ps s'] obtain xs
      where "attempts (snd (download_products ps s')) = attempts s' @ xs" by blast
    with d None a show ?thesis by simp
  next
    case (Some e)
    with d a show ?thesis by simp
  qed
qed

lemma download_products_quiet_store:
  "download_products ps \<lparr>script = [], attempts = a, sleeps = sl\<rparr> =
     (None, \<lparr>script = [], attempts = a @ ps, sleeps = sl\<rparr>)"
  by (induction ps arbitrary: a)
     (simp_all add: download_from_s3_single_attempt download_from_s3_body_def run_try_block_def)

lemma clean_line_P1: "clean_line ''P1''"
  by (simp add: clean_line_def is_space_def)

lemma read_back_replicate:
  "product_list_of (readlines (writelines (map (\<lambda>res. res @ [CHR 0x0A]) (replicate n ''P1'')))) =
     replicate n ''P1''"
  by (rule read_back) (simp add: clean_line_P1)

text \<open>
  C5. At query time the count only sets the warning: whenever the end marker date
  exists, \<^verbatim>\<open>execute_request\<close> returns, the warning is raised exactly above 500
  products, and every product of the result is written to the query file. At download
  time a query file with more than 500 entries makes \<^verbatim>\<open>download\<close> fail with the store
  untouched: no listing and no transfer was attempted. With at most 500 entries the
  download loop runs, starting with an attempt on the first product.
\<close>

theorem threshold_asymmetry:
  "(add_one_day (end_date request) = Inr ed \<longrightarrow>
      (\<exists>r. execute_request bucket request = Inr r \<and>
           warn_threshold r = (DOWNLOAD_THRESHOLD < length (total_list_products r)) \<and>
           query_file_text r = writelines (map (\<lambda>res. res @ [CHR 0x0A]) (total_list_products r)))) \<and>
   (files path = Some text \<and> DOWNLOAD_THRESHOLD < length (product_list_of (readlines text)) \<longrightarrow>
      download files (Some path) s = (Some (RuntimeError ''No active exception to reraise''), s)) \<and>
   (files path = Some text \<and> product_list_of (readlines text) = p # ps \<and>
    length (p # ps) \<le> DOWNLOAD_THRESHOLD \<longrightarrow>
      download files (Some path) s = download_products (p # ps) s \<and>
      (\<exists>xs. attempts (snd (download files (Some path) s)) = attempts s @ p # xs)) \<and>
   DOWNLOAD_THRESHOLD = 500"
proof (intro conjI impI)
  assume "add_one_day (end_date request) = Inr ed"
  then show "\<exists>r. execute_request bucket request = Inr r \<and>
           warn_threshold r = (DOWNLOAD_THRESHOLD < length (total_list_products r)) \<and>
           query_file_text r = writelines (map (\<lambda>res. res @ [CHR 0x0A]) (total_list_products r))"
    by (simp add: execute_request_def split: prod.splits)
next
  assume "files path = Some text \<and> DOWNLOAD_THRESHOLD < length (product_list_of (readlines text))"
  then show "download files (Some path) s = (Some (RuntimeError ''No active exception to reraise''), s)"
    by (simp add: download_def)
next
  assume a: "files path = Some text \<and> product_list_of (readlines text) = p # ps \<and>
    length (p # ps) \<le> DOWNLOAD_THRESHOLD"
  then show d: "download files (Some path) s = download_products (p # ps) s"
    by (simp add: download_def)
  show "\<exists>xs. attempts (snd (download files (Some path) s)) = attempts s @ p # xs"
    unfolding d by (rule download_products_first_attempt)
next
  show "DOWNLOAD_THRESHOLD = 500" by (simp add: DOWNLOAD_THRESHOLD_def)
qed

theorem threshold_asymmetry_witness:
  "add_one_day \<lparr>year = 2025, month = 2, day = 1\<rparr> = Inr \<lparr>year = 2025, month = 2, day = 2\<rparr> \<and>
   (\<exists>r. execute_request [] \<lparr>tiles = [''31TCH''], productType = [''FSC''],
             start_date = \<lparr>year = 2025, month = 2, day = 1\<rparr>,
             end_date = \<lparr>year = 2025, month = 2, day = 1\<rparr>\<rparr> = Inr r \<and>
        warn_threshold r = (DOWNLOAD_THRESHOLD < length (total_list_products r)) \<and>
        query_file_text r = writelines (map (\<lambda>res. res @ [CHR 0x0A]) (total_list_products r))) \<and>
   length (product_list_of (readlines
      (writelines (map (\<lambda>res. res @ [CHR 0x0A]) (replicate 501 ''P1''))))) = 501 \<and>
   download [''query_file.txt'' \<mapsto> writelines (map (\<lambda>res. res @ [CHR 0x0A]) (replicate 501 ''P1''))]
      (Some ''query_file.txt'') \<lparr>script = [], attempts = [], sleeps = []\<rparr> =
     (Some (RuntimeError ''No active exception to reraise''),
      \<lparr>script = [], attempts = [], sleeps = []\<rparr>) \<and>
   length (product_list_of (readlines
      (writelines (map (\<lambda>res. res @ [CHR 0x0A]) (replicate 500 ''P1''))))) = 500 \<and>
   download [''query_file.txt'' \<mapsto> writelines (map (\<lambda>res. res @ [CHR 0x0A]) (replicate 500 ''P1''))]
      (Some ''query_file.txt'') \<lparr>script = [], attempts = [], sleeps = []\<rparr> =
     (None, \<lparr>script = [], attempts = replicate 500 ''P1'', sleeps = []\<rparr>)"
proof -
  let ?d = "\<lparr>year = 2025, month = 2, day = 1\<rparr>"
  let ?rq = "\<lparr>tiles = [''31TCH''], productType = [''FSC''], start_date = ?d, end_date = ?d\<rparr>"
  let ?t1 = "writelines (map (\<lambda>res. res @ [CHR 0x0A]) (replicate 501 ''P1''))"
  let ?t0 = "writelines (map (\<lambda>res. res @ [CHR 0x0A]) (replicate 500 ''P1''))"
  let ?s = "\<lparr>script = [], attempts = [], sleeps = []\<rparr>"
  have day: "add_one_day ?d = Inr \<lparr>year = 2025, month = 2, day = 2\<rparr>"
    by (simp add: add_one_day_def days_in_month_def is_leap_def)
  have r500: "replicate 500 ''P1'' = ''P1'' # replicate 499 ''P1''"
  proof -
    have "(500::nat) = Suc 499" by simp
    then show ?thesis by (simp only: replicate_Suc)
  qed
  have l1: "product_list_of (readlines ?t1) = replicate 501 ''P1''"
    and l0: "product_list_of (readlines ?t0) = replicate 500 ''P1''"
    by (rule read_back_replicate)+
  note w1 = threshold_asymmetry [of ?rq "\<lparr>year = 2025, month = 2, day = 2\<rparr>" "[]"
      "[''query_file.txt'' \<mapsto> ?t1]" "''query_file.txt''" ?t1 ?s "''P1''" "replicate 499 ''P1''"]
  note w0 = threshold_asymmetry [of ?rq "\<lparr>year = 2025, month = 2, day = 2\<rparr>" "[]"
      "[''query_file.txt'' \<mapsto> ?t0]" "''query_file.txt''" ?t0 ?s "''P1''" "replicate 499 ''P1''"]
  from w1 day have q: "\<exists>r. execute_request [] ?rq = Inr r \<and>
        warn_threshold r = (DOWNLOAD_THRESHOLD < length (total_list_products r)) \<and>
        query_file_text r = writelines (map (\<lambda>res. res @ [CHR 0x0A]) (total_list_products r))"
    by simp
  from w1 l1 have d1: "download [''query_file.txt'' \<mapsto> ?t1] (Some ''query_file.txt'') ?s =
     (Some (RuntimeError ''No active exception to reraise''), ?s)"
    by (simp add: DOWNLOAD_THRESHOLD_def)
  from w0 l0 r500 have "download [''query_file.txt'' \<mapsto> ?t0] (Some ''query_file.txt'') ?s =
     download_products (''P1'' # replicate 499 ''P1'') ?s"
    by (simp add: DOWNLOAD_THRESHOLD_def)
  then have d0: "download [''query_file.txt'' \<mapsto> ?t0] (Some ''query_file.txt'') ?s =
     (None, \<lparr>script = [], attempts = replicate 500 ''P1'', sleeps = []\<rparr>)"
    by (simp only: r500 [symmetric] download_products_quiet_store append_Nil)
  from day q l1 d1 l0 d0 show ?thesis by simp
qed

section \<open>Properties of the date-bounded listing\<close>

subsection \<open>Digits and the lexicographic order\<close>

lemma lex_100: "r1 < 100 \<Longrightarrow> r2 < 100 \<Longrightarrow>
   (100 * q1 + r1 < 100 * q2 + (r2::nat) \<longleftrightarrow> q1 < q2 \<or> (q1 = q2 \<and> r1 < r2))"
  by arith

lemma lex_10: "r1 < 10 \<Longrightarrow> r2 < 10 \<Longrightarrow>
   (10 * q1 + r1 < 10 * q2 + (r2::nat) \<longleftrightarrow> q1 < q2 \<or> (q1 = q2 \<and> r1 < r2))"
  by arith

lemma div_mod_less_100: "(a::nat) < b \<longleftrightarrow> a div 100 < b div 100 \<or> (a div 100 = b div 100 \<and> a mod 100 < b mod 100)"
  using lex_100 [of "a mod 100" "b mod 100" "a div 100" "b div 100"] by simp

lemma div_mod_less_10: "(a::nat) < b \<longleftrightarrow> a div 10 < b div 10 \<or> (a div 10 = b div 10 \<and> a mod 10 < b mod 10)"
  using lex_10 [of "a mod 10" "b mod 10" "a div 10" "b div 10"] by simp

lemma div_mod_eq_100: "(a::nat) = b \<longleftrightarrow> a div 100 = b div 100 \<and> a mod 100 = b mod 100"
  by (metis div_mult_mod_eq)

lemma div_mod_eq_10: "(a::nat) = b \<longleftrightarrow> a div 10 = b div 10 \<and> a mod 10 = b mod 10"
  by (metis div_mult_mod_eq)

lemma m100: "(n::nat) mod 100 = 10 * (n div 10 mod 10) + n mod 10"
  using mod_mult2_eq [of n 10 10] by simp

lemma mod_100_div_10: "(n::nat) mod 100 div 10 = n div 10 mod 10"
  by (simp add: m100)

lemma mod_100_mod_10: "(n::nat) mod 100 mod 10 = n mod 10"
  by (simp add: m100)

lemma div_div_10: "(n::nat) div 10 div 10 = n div 100" "n div 100 div 10 = n div 1000"
  by (simp_all add: div_mult2_eq [symmetric])

lemma div_100_unique: "r < 100 \<Longrightarrow> (100 * q + r) div 100 = (q::nat)"
  by simp

lemma mod_100_unique: "r < 100 \<Longrightarrow> (100 * q + r) mod 100 = (r::nat)"
  by simp

lemma digits4_split:
  "1000 * a + 100 * b + 10 * c + d = 100 * (10 * a + b) + (10 * c + (d::nat))"
  by arith

lemma digits4_div:
  assumes "c < 10" "d < 10"
  shows "(1000 * a + 100 * b + 10 * c + d) div 100 = 10 * a + (b::nat)"
proof -
  from assms have "10 * c + d < 100" by arith
  then show ?thesis unfolding digits4_split by (rule div_100_unique)
qed

lemma digits4_mod:
  assumes "c < 10" "d < 10"
  shows "(1000 * a + 100 * b + 10 * c + d) mod 100 = 10 * c + (d::nat)"
proof -
  from assms have "10 * c + d < 100" by arith
  then show ?thesis unfolding digits4_split by (rule mod_100_unique)
qed

lemma append_less_cancel: "p @ x < p @ y \<longleftrightarrow> x < (y :: 'a :: order list)"
  by (induction p) simp_all

lemma less_append_same_length:
  "length x = length y \<Longrightarrow> (x @ u < y @ v \<longleftrightarrow> x < y \<or> (x = y \<and> u < (v :: 'a :: order list)))"
  by (induction x y rule: list_induct2) auto

lemma of_char_digit_char: "n < 10 \<Longrightarrow> (of_char (digit_char n) :: nat) = 48 + n"
  by (simp add: digit_char_def)

lemma digit_char_less: "a < 10 \<Longrightarrow> b < 10 \<Longrightarrow> digit_char a < digit_char b \<longleftrightarrow> a < b"
  by (simp add: less_char_def of_char_digit_char)

lemma digit_char_eq: "a < 10 \<Longrightarrow> b < 10 \<Longrightarrow> digit_char a = digit_char b \<longleftrightarrow> a = b"
proof
  assume "a < 10" "b < 10" "digit_char a = digit_char b"
  then have "(of_char (digit_char a) :: nat) = of_char (digit_char b)" by simp
  with \<open>a < 10\<close> \<open>b < 10\<close> show "a = b" by (simp only: of_char_digit_char add_left_cancel)
qed simp

lemma is_digit_of_char: "is_digit c \<longleftrightarrow> 48 \<le> (of_char c :: nat) \<and> (of_char c :: nat) \<le> 57"
  by (simp add: is_digit_def less_eq_char_def)

lemma digit_val_less: "is_digit c \<Longrightarrow> digit_val c < 10"
  unfolding is_digit_of_char digit_val_def by arith

lemma digit_char_val: "is_digit c \<Longrightarrow> digit_char (digit_val c) = c"
proof -
  assume "is_digit c"
  then have "48 + (of_char c - 48) = (of_char c :: nat)" by (simp add: is_digit_of_char)
  then show ?thesis by (simp add: digit_char_def digit_val_def)
qed

lemma length_pad2: "length (pad2 n) = 2"
  by (simp add: pad2_def)

lemma pad2_less: 
  assumes "a < 100" "b < 100"
  shows "pad2 a < pad2 b \<longleftrightarrow> a < b"
proof -
  from assms have d: "a div 10 < 10" "b div 10 < 10" "a mod 10 < 10" "b mod 10 < 10" by simp_all
  have "pad2 a < pad2 b \<longleftrightarrow>
        a div 10 < b div 10 \<or> (a div 10 = b div 10 \<and> a mod 10 < b mod 10)"
    by (simp add: pad2_def digit_char_less digit_char_eq d)
  then show ?thesis by (simp only: div_mod_less_10 [of a b])
qed

lemma pad2_eq: 
  assumes "a < 100" "b < 100"
  shows "pad2 a = pad2 b \<longleftrightarrow> a = b"
proof -
  from assms have d: "a div 10 < 10" "b div 10 < 10" "a mod 10 < 10" "b mod 10 < 10" by simp_all
  have "pad2 a = pad2 b \<longleftrightarrow> a div 10 = b div 10 \<and> a mod 10 = b mod 10"
    by (simp add: pad2_def digit_char_eq d)
  then show ?thesis by (simp only: div_mod_eq_10 [of a b])
qed

lemma pad2_digits:
  assumes "is_digit c1" "is_digit c2"
  shows "[c1, c2] = pad2 (10 * digit_val c1 + digit_val c2) \<and> 10 * digit_val c1 + digit_val c2 < 100"
proof -
  from assms have l: "digit_val c1 < 10" "digit_val c2 < 10" by (simp_all add: digit_val_less)
  then have "(10 * digit_val c1 + digit_val c2) div 10 = digit_val c1"
    "(10 * digit_val c1 + digit_val c2) mod 10 = digit_val c2" by simp_all
  moreover from l have "10 * digit_val c1 + digit_val c2 < 100" by arith
  ultimately show ?thesis using assms by (simp add: pad2_def digit_char_val)
qed

lemma length_enc4: "length (enc4 n) = 4"
  by (simp add: enc4_def length_pad2)

lemma enc4_less:
  assumes "a < 10000" "b < 10000"
  shows "enc4 a < enc4 b \<longleftrightarrow> a < b"
proof -
  from assms have d: "a div 100 < 100" "b div 100 < 100" "a mod 100 < 100" "b mod 100 < 100"
    by simp_all
  have "enc4 a < enc4 b \<longleftrightarrow>
        a div 100 < b div 100 \<or> (a div 100 = b div 100 \<and> a mod 100 < b mod 100)"
    unfolding enc4_def
    by (simp add: less_append_same_length length_pad2 pad2_less pad2_eq d)
  then show ?thesis by (simp only: div_mod_less_100 [of a b])
qed

lemma enc4_eq:
  assumes "a < 10000" "b < 10000"
  shows "enc4 a = enc4 b \<longleftrightarrow> a = b"
proof -
  from assms have d: "a div 100 < 100" "b div 100 < 100" "a mod 100 < 100" "b mod 100 < 100"
    by simp_all
  have "enc4 a = enc4 b \<longleftrightarrow> a div 100 = b div 100 \<and> a mod 100 = b mod 100"
    unfolding enc4_def by (simp add: length_pad2 pad2_eq d)
  then show ?thesis by (simp only: div_mod_eq_100 [of a b])
qed

lemma str_of_nat_4:
  assumes "1000 \<le> n" "n \<le> 9999"
  shows "str_of_nat n = enc4 n"
proof -
  from assms have n: "\<not> n < 10" "\<not> n div 10 < 10" "\<not> n div 100 < 10" "n div 1000 < 10"
    by arith+
  have 1: "str_of_nat n = str_of_nat (n div 10) @ [digit_char (n mod 10)]"
    using n(1) by (subst str_of_nat.simps) simp
  have 2: "str_of_nat (n div 10) = str_of_nat (n div 100) @ [digit_char (n div 10 mod 10)]"
    using n(2) by (subst str_of_nat.simps) (simp add: div_div_10)
  have 3: "str_of_nat (n div 100) = str_of_nat (n div 1000) @ [digit_char (n div 100 mod 10)]"
    using n(3) by (subst str_of_nat.simps) (simp add: div_div_10)
  have 4: "str_of_nat (n div 1000) = [digit_char (n div 1000)]"
    using n(4) by (subst str_of_nat.simps) simp
  have "str_of_nat n = [digit_char (n div 1000), digit_char (n div 100 mod 10),
                        digit_char (n div 10 mod 10), digit_char (n mod 10)]"
    by (simp only: 1 2 3 4 append.simps)
  moreover have "enc4 n =
      [digit_char (n div 1000), digit_char (n div 100 mod 10),
       digit_char (n div 10 mod 10), digit_char (n mod 10)]"
    by (simp only: enc4_def pad2_def div_div_10 mod_100_div_10 mod_100_mod_10 append.simps)
  ultimately show ?thesis by simp
qed

lemma enc4_digits:
  assumes "is_digit y1" "is_digit y2" "is_digit y3" "is_digit y4"
  shows "[y1, y2, y3, y4] = enc4 (1000 * digit_val y1 + 100 * digit_val y2 + 10 * digit_val y3 + digit_val y4)
     \<and> 1000 * digit_val y1 + 100 * digit_val y2 + 10 * digit_val y3 + digit_val y4 < 10000"
proof -
  from assms have l: "digit_val y1 < 10" "digit_val y2 < 10" "digit_val y3 < 10" "digit_val y4 < 10"
    by (simp_all add: digit_val_less)
  from l have b: "1000 * digit_val y1 + 100 * digit_val y2 + 10 * digit_val y3 + digit_val y4 < 10000"
    by arith
  from pad2_digits [OF assms(1,2)] pad2_digits [OF assms(3,4)]
  have "[y1, y2] @ [y3, y4] = pad2 (10 * digit_val y1 + digit_val y2) @ pad2 (10 * digit_val y3 + digit_val y4)"
    by simp
  then have "[y1, y2, y3, y4] = enc4 (1000 * digit_val y1 + 100 * digit_val y2 + 10 * digit_val y3 + digit_val y4)"
    by (simp only: enc4_def digits4_div [OF l(3,4)] digits4_mod [OF l(3,4)] append.simps)
  with b show ?thesis by simp
qed

subsection \<open>Keys against markers\<close>

lemma valid_date_bounds:
  "valid_date x \<Longrightarrow> year x < 10000 \<and> month x < 100 \<and> day x < 100"
  by (auto simp: valid_date_def days_in_month_def split: if_splits)

lemma parse_ymd_Some:
  assumes "parse_ymd s = Some d"
  shows "valid_date d \<and>
    (\<exists>rest. s = enc4 (year d) @ ''/'' @ pad2 (month d) @ ''/'' @ pad2 (day d) @ ''/'' @ rest)"
proof (cases s rule: parse_ymd.cases)
  case (1 y1 y2 y3 y4 s1 m1 m2 s2 d1 d2 s3 rest)
  let ?y = "1000 * digit_val y1 + 100 * digit_val y2 + 10 * digit_val y3 + digit_val y4"
  let ?m = "10 * digit_val m1 + digit_val m2"
  let ?d = "10 * digit_val d1 + digit_val d2"
  from assms 1 have dig: "is_digit y1" "is_digit y2" "is_digit y3" "is_digit y4"
    "is_digit m1" "is_digit m2" "is_digit d1" "is_digit d2"
    and sl: "s1 = CHR ''/''" "s2 = CHR ''/''" "s3 = CHR ''/''"
    and d: "d = \<lparr>year = ?y, month = ?m, day = ?d\<rparr>" and v: "valid_date d"
    by (auto simp: Let_def split: if_splits)
  from enc4_digits [OF dig(1-4)] have y: "[y1, y2, y3, y4] = enc4 ?y" by simp
  from pad2_digits [OF dig(5,6)] have m: "[m1, m2] = pad2 ?m" by simp
  from pad2_digits [OF dig(7,8)] have dd: "[d1, d2] = pad2 ?d" by simp
  have "s = [y1, y2, y3, y4] @ ''/'' @ [m1, m2] @ ''/'' @ [d1, d2] @ ''/'' @ rest"
    by (simp add: 1 sl)
  then have "s = enc4 (year d) @ ''/'' @ pad2 (month d) @ ''/'' @ pad2 (day d) @ ''/'' @ rest"
    by (simp only: y m dd d date.simps)
  with v show ?thesis by blast
qed (use assms in simp_all)

lemma key_date_Some:
  assumes "key_date prefix k = Some d"
  shows "valid_date d \<and> startswith prefix k \<and>
    (\<exists>rest. k = prefix @ ''/'' @ enc4 (year d) @ ''/'' @ pad2 (month d) @ ''/'' @ pad2 (day d) @ ''/'' @ rest)"
proof -
  from assms have st: "startswith (prefix @ ''/'') k"
    and p: "parse_ymd (drop (length prefix + 1) k) = Some d"
    by (auto simp: key_date_def split: if_splits)
  from st have "take (length prefix + 1) k = prefix @ ''/''" by (simp add: startswith_def)
  then have k: "k = (prefix @ ''/'') @ drop (length prefix + 1) k"
    by (metis append_take_drop_id)
  from parse_ymd_Some [OF p] obtain rest where v: "valid_date d"
    and r: "drop (length prefix + 1) k =
        enc4 (year d) @ ''/'' @ pad2 (month d) @ ''/'' @ pad2 (day d) @ ''/'' @ rest"
    by blast
  from k r have k': "k = prefix @ ''/'' @ enc4 (year d) @ ''/'' @ pad2 (month d) @ ''/'' @ pad2 (day d) @ ''/'' @ rest"
    by simp
  then have "startswith prefix k" by (simp add: startswith_def)
  with v k' show ?thesis by blast
qed

lemma marker_text:
  assumes "valid_date a" "1000 \<le> year a"
  shows "marker pT tile a =
     (pT @ ''/'' @ tile) @ ''/'' @ enc4 (year a) @ ''/'' @ pad2 (month a) @ ''/'' @ pad2 (day a)"
proof -
  from assms have "year a \<le> 9999" by (simp add: valid_date_def)
  with assms(2) have "str_of_nat (year a) = enc4 (year a)" by (rule str_of_nat_4)
  then show ?thesis by (simp add: marker_def)
qed

lemma date_text_less:
  assumes "year a < 10000" "month a < 100" "day a < 100"
    and "year d < 10000" "month d < 100" "day d < 100"
  shows "enc4 (year a) @ ''/'' @ pad2 (month a) @ ''/'' @ pad2 (day a) <
         enc4 (year d) @ ''/'' @ pad2 (month d) @ ''/'' @ pad2 (day d) @ ''/'' @ rest
         \<longleftrightarrow> date_le a d"
proof -
  have 3: "pad2 (day a) < pad2 (day d) @ ''/'' @ rest \<longleftrightarrow> day a \<le> day d"
    using less_append_same_length [of "pad2 (day a)" "pad2 (day d)" "[]" "''/'' @ rest"] assms
    by (auto simp: length_pad2 pad2_less pad2_eq)
  have 2: "pad2 (month a) @ ''/'' @ pad2 (day a) <
           pad2 (month d) @ ''/'' @ pad2 (day d) @ ''/'' @ rest \<longleftrightarrow>
           month a < month d \<or> (month a = month d \<and> day a \<le> day d)"
    using less_append_same_length [of "pad2 (month a)" "pad2 (month d)"
        "''/'' @ pad2 (day a)" "''/'' @ pad2 (day d) @ ''/'' @ rest"] assms 3
    by (simp add: length_pad2 pad2_less pad2_eq)
  have 1: "enc4 (year a) @ ''/'' @ pad2 (month a) @ ''/'' @ pad2 (day a) <
         enc4 (year d) @ ''/'' @ pad2 (month d) @ ''/'' @ pad2 (day d) @ ''/'' @ rest \<longleftrightarrow>
         year a < year d \<or> (year a = year d \<and>
           (month a < month d \<or> (month a = month d \<and> day a \<le> day d)))"
    using less_append_same_length [of "enc4 (year a)" "enc4 (year d)"
        "''/'' @ pad2 (month a) @ ''/'' @ pad2 (day a)"
        "''/'' @ pad2 (month d) @ ''/'' @ pad2 (day d) @ ''/'' @ rest"] assms 2
    by (simp add: length_enc4 enc4_less enc4_eq)
  show ?thesis unfolding 1 by (auto simp: date_le_def date_less_def)
qed

lemma marker_less_key:
  assumes a: "valid_date a" "1000 \<le> year a"
    and k: "key_date (pT @ ''/'' @ tile) k = Some d"
  shows "marker pT tile a < k \<longleftrightarrow> date_le a d"
proof -
  from key_date_Some [OF k] obtain rest where v: "valid_date d"
    and kt: "k = (pT @ ''/'' @ tile) @ ''/'' @ enc4 (year d) @ ''/'' @ pad2 (month d) @ ''/'' @ pad2 (day d) @ ''/'' @ rest"
    by blast
  have "marker pT tile a < k \<longleftrightarrow>
        enc4 (year a) @ ''/'' @ pad2 (month a) @ ''/'' @ pad2 (day a) <
        enc4 (year d) @ ''/'' @ pad2 (month d) @ ''/'' @ pad2 (day d) @ ''/'' @ rest"
    unfolding marker_text [OF a]
    by (subst kt) (simp only: append_less_cancel append_assoc)
  also have "\<dots> \<longleftrightarrow> date_le a d"
    using valid_date_bounds [OF a(1)] valid_date_bounds [OF v] by (intro date_text_less) simp_all
  finally show ?thesis .
qed

lemma set_objects_filter:
  "set (objects_filter bucket prefix (Some m)) =
     {obj \<in> set bucket. startswith prefix (key obj) \<and> m < key obj}"
  by (auto simp: objects_filter_def)

lemma set_contents_of:
  "set (contents_of bucket sd ed pT tile) =
     {obj \<in> set bucket. startswith (pT @ ''/'' @ tile) (key obj) \<and>
        marker pT tile sd < key obj \<and> \<not> marker pT tile ed < key obj}"
  unfolding contents_of_def Let_def set_filter set_map set_objects_filter
  by auto

lemma date_le_not_less: "date_le d e \<longleftrightarrow> \<not> date_less e d"
  by (auto simp: date_le_def date_less_def)

lemma date_le_year: "date_le a b \<Longrightarrow> year a \<le> year b"
  by (auto simp: date_le_def date_less_def)

lemma date_le_antisym: "date_le a b \<Longrightarrow> date_le b a \<Longrightarrow> a = b"
  by (auto simp: date_le_def date_less_def date_eq_iff)

lemma date_le_refl: "date_le a a"
  by (simp add: date_le_def)

lemma scan_contents_set:
  "set (snd (scan_contents cs acc)) = set (snd acc) \<union> (\<lambda>obj. dirname (key obj)) ` set cs"
proof (induction cs arbitrary: acc)
  case Nil
  then show ?case by simp
next
  case (Cons c cs)
  obtain n ps where acc: "acc = (n, ps)" by (cases acc)
  show ?case unfolding acc by (simp add: Cons.IH Let_def) blast
qed

lemma execute_request_single:
  assumes "add_one_day e = Inr ed"
  shows "\<exists>r. execute_request bucket \<lparr>tiles = [tile], productType = [pT], start_date = s, end_date = e\<rparr> = Inr r \<and>
     set (total_list_products r) = (\<lambda>obj. dirname (key obj)) ` set (contents_of bucket s ed pT tile)"
proof -
  obtain n ps where sc: "scan_contents (contents_of bucket s ed pT tile) (0, []) = (n, ps)"
    by (cases "scan_contents (contents_of bucket s ed pT tile) (0, [])")
  from scan_contents_set [of "contents_of bucket s ed pT tile" "(0, [])"] sc
  have "set ps = (\<lambda>obj. dirname (key obj)) ` set (contents_of bucket s ed pT tile)" by simp
  with assms sc show ?thesis by (simp add: execute_request_def)
qed

lemma in_window_iff:
  assumes s: "valid_date s" "1000 \<le> year s" and ed: "valid_date ed" "1000 \<le> year ed"
    and nx: "\<forall>x. valid_date x \<longrightarrow> (date_less e x \<longleftrightarrow> date_le ed x)"
    and k: "key_date (pT @ ''/'' @ tile) k = Some d"
  shows "marker pT tile s < k \<and> \<not> marker pT tile ed < k \<longleftrightarrow> date_le s d \<and> date_le d e"
proof -
  from key_date_Some [OF k] have v: "valid_date d" by blast
  have 1: "marker pT tile s < k \<longleftrightarrow> date_le s d" using s k by (rule marker_less_key)
  have 2: "marker pT tile ed < k \<longleftrightarrow> date_le ed d" using ed k by (rule marker_less_key)
  from nx v have 3: "date_le ed d \<longleftrightarrow> date_less e d" by blast
  show ?thesis unfolding 1 2 3 by (simp add: date_le_not_less)
qed

subsection \<open>The listing\<close>

text \<open>
  C1, as stated: for every window with the start not after the end, the listing is
  exactly the objects under the prefix whose key date lies in the window. It fails for a
  start date before the year 1000: the marker holds the year as the integer prints, here
  \<^verbatim>\<open>999\<close>, which sorts after every four-digit year, so the first listing is empty and
  an object of 2025-02-01 is missing from the window 0999-01-01 to 2025-02-03.
\<close>

theorem date_bounded_listing_counterexample:
  "valid_date \<lparr>year = 999, month = 1, day = 1\<rparr> \<and>
   valid_date \<lparr>year = 2025, month = 2, day = 3\<rparr> \<and>
   date_le \<lparr>year = 999, month = 1, day = 1\<rparr> \<lparr>year = 2025, month = 2, day = 3\<rparr> \<and>
   key_date ''FSC/31TCH'' ''FSC/31TCH/2025/02/01/P1/a.tif'' = Some \<lparr>year = 2025, month = 2, day = 1\<rparr> \<and>
   date_le \<lparr>year = 999, month = 1, day = 1\<rparr> \<lparr>year = 2025, month = 2, day = 1\<rparr> \<and>
   date_le \<lparr>year = 2025, month = 2, day = 1\<rparr> \<lparr>year = 2025, month = 2, day = 3\<rparr> \<and>
   add_one_day \<lparr>year = 2025, month = 2, day = 3\<rparr> = Inr \<lparr>year = 2025, month = 2, day = 4\<rparr> \<and>
   marker ''FSC'' ''31TCH'' \<lparr>year = 999, month = 1, day = 1\<rparr> = ''FSC/31TCH/999/01/01'' \<and>
   contents_of [\<lparr>key = ''FSC/31TCH/2025/02/01/P1/a.tif'', size_bytes = 10\<rparr>]
     \<lparr>year = 999, month = 1, day = 1\<rparr> \<lparr>year = 2025, month = 2, day = 4\<rparr> ''FSC'' ''31TCH'' = [] \<and>
   execute_request [\<lparr>key = ''FSC/31TCH/2025/02/01/P1/a.tif'', size_bytes = 10\<rparr>]
     \<lparr>tiles = [''31TCH''], productType = [''FSC''],
      start_date = \<lparr>year = 999, month = 1, day = 1\<rparr>,
      end_date = \<lparr>year = 2025, month = 2, day = 3\<rparr>\<rparr>
     = Inr \<lparr>total_list_products = [], total_size_b = 0, warn_no_product = True,
            warn_threshold = False, query_file_text = []\<rparr>"
  by code_simp

text \<open>
  C1, amended. Let the start date be of the year 1000 or later, the end date not before
  it and not the last representable date, and let every key of the bucket under the
  prefix \<^verbatim>\<open>{productType}/{tile}\<close> be a catalogue key, with a calendar date after the
  prefix. Then the end marker date exists, and the difference of the two listings is
  exactly the set of objects of the bucket whose key date lies in the window, both ends
  included; for a window of one day these are the objects of that day. The products
  \<^verbatim>\<open>execute_request\<close> reports for that product type and tile are the directories of
  these objects.
\<close>

theorem date_bounded_listing:
  assumes s: "valid_date s" "1000 \<le> year s"
    and e: "valid_date e" "e \<noteq> date_max"
    and se: "date_le s e"
    and wf: "\<forall>obj \<in> set bucket. startswith (pT @ ''/'' @ tile) (key obj) \<longrightarrow>
                key_date (pT @ ''/'' @ tile) (key obj) \<noteq> None"
  shows "\<exists>ed r. add_one_day e = Inr ed \<and>
           set (contents_of bucket s ed pT tile) =
             {obj \<in> set bucket. \<exists>d. key_date (pT @ ''/'' @ tile) (key obj) = Some d \<and>
                                    date_le s d \<and> date_le d e} \<and>
           (s = e \<longrightarrow> set (contents_of bucket s ed pT tile) =
             {obj \<in> set bucket. key_date (pT @ ''/'' @ tile) (key obj) = Some s}) \<and>
           execute_request bucket
             \<lparr>tiles = [tile], productType = [pT], start_date = s, end_date = e\<rparr> = Inr r \<and>
           set (total_list_products r) =
             (\<lambda>obj. dirname (key obj)) ` set (contents_of bucket s ed pT tile)"
proof -
  from add_one_day_next [OF e] obtain ed where ad: "add_one_day e = Inr ed"
    and ved: "valid_date ed" and lt: "date_less e ed"
    and nx: "\<forall>x. valid_date x \<longrightarrow> (date_less e x \<longleftrightarrow> date_le ed x)"
    by blast
  from lt have "year e \<le> year ed" by (auto simp: date_less_def)
  with date_le_year [OF se] s(2) have yed: "1000 \<le> year ed" by simp
  have main: "set (contents_of bucket s ed pT tile) =
      {obj \<in> set bucket. \<exists>d. key_date (pT @ ''/'' @ tile) (key obj) = Some d \<and>
                             date_le s d \<and> date_le d e}" (is "?L = ?R")
  proof (rule set_eqI)
    fix obj
    show "obj \<in> ?L \<longleftrightarrow> obj \<in> ?R"
    proof
      assume "obj \<in> ?L"
      then have b: "obj \<in> set bucket" and st: "startswith (pT @ ''/'' @ tile) (key obj)"
        and m: "marker pT tile s < key obj \<and> \<not> marker pT tile ed < key obj"
        by (simp_all add: set_contents_of)
      from wf b st obtain d where k: "key_date (pT @ ''/'' @ tile) (key obj) = Some d" by blast
      from in_window_iff [OF s ved yed nx k] m have "date_le s d \<and> date_le d e" by blast
      with b k show "obj \<in> ?R" by blast
    next
      assume "obj \<in> ?R"
      then obtain d where b: "obj \<in> set bucket"
        and k: "key_date (pT @ ''/'' @ tile) (key obj) = Some d"
        and w: "date_le s d \<and> date_le d e"
        by blast
      from key_date_Some [OF k] have st: "startswith (pT @ ''/'' @ tile) (key obj)" by blast
      from in_window_iff [OF s ved yed nx k] w
      have "marker pT tile s < key obj \<and> \<not> marker pT tile ed < key obj" by blast
      with b st show "obj \<in> ?L" by (simp add: set_contents_of)
    qed
  qed
  have single: "s = e \<longrightarrow> set (contents_of bucket s ed pT tile) =
      {obj \<in> set bucket. key_date (pT @ ''/'' @ tile) (key obj) = Some s}"
  proof
    assume "s = e"
    then have "\<And>d. date_le s d \<and> date_le d e \<longleftrightarrow> d = s"
      using date_le_antisym date_le_refl by blast
    then show "set (contents_of bucket s ed pT tile) =
      {obj \<in> set bucket. key_date (pT @ ''/'' @ tile) (key obj) = Some s}"
      unfolding main by auto
  qed
  from execute_request_single [OF ad, of bucket tile pT s] obtain r
    where "execute_request bucket
             \<lparr>tiles = [tile], productType = [pT], start_date = s, end_date = e\<rparr> = Inr r"
      and "set (total_list_products r) =
             (\<lambda>obj. dirname (key obj)) ` set (contents_of bucket s ed pT tile)"
    by blast
  with ad main single show ?thesis by blast
qed

lemma catalogue_example:
  "key_date ''FSC/31TCH'' ''FSC/31TCH/2025/02/01/P1/a.tif'' = Some \<lparr>year = 2025, month = 2, day = 1\<rparr> \<and>
   key_date ''FSC/31TCH'' ''FSC/31TCH/2025/02/02/P2/b.tif'' = Some \<lparr>year = 2025, month = 2, day = 2\<rparr> \<and>
   key_date ''FSC/31TCH'' ''FSC/31TCH/2025/02/04/P3/c.tif'' = Some \<lparr>year = 2025, month = 2, day = 4\<rparr> \<and>
   startswith ''FSC/31TCH'' ''FSC/31TCH/2025/02/01/P1/a.tif'' \<and>
   valid_date \<lparr>year = 2025, month = 2, day = 1\<rparr> \<and>
   valid_date \<lparr>year = 2025, month = 2, day = 2\<rparr> \<and>
   valid_date \<lparr>year = 2025, month = 2, day = 3\<rparr> \<and>
   \<lparr>year = 2025, month = 2, day = 3\<rparr> \<noteq> date_max \<and>
   \<lparr>year = 2025, month = 2, day = 2\<rparr> \<noteq> date_max \<and>
   date_le \<lparr>year = 2025, month = 2, day = 1\<rparr> \<lparr>year = 2025, month = 2, day = 3\<rparr> \<and>
   date_le \<lparr>year = 2025, month = 2, day = 2\<rparr> \<lparr>year = 2025, month = 2, day = 2\<rparr> \<and>
   add_one_day \<lparr>year = 2025, month = 2, day = 3\<rparr> = Inr \<lparr>year = 2025, month = 2, day = 4\<rparr> \<and>
   add_one_day \<lparr>year = 2025, month = 2, day = 2\<rparr> = Inr \<lparr>year = 2025, month = 2, day = 3\<rparr> \<and>
   contents_of [\<lparr>key = ''FSC/31TCH/2025/02/01/P1/a.tif'', size_bytes = 10\<rparr>,
                \<lparr>key = ''FSC/31TCH/2025/02/02/P2/b.tif'', size_bytes = 20\<rparr>,
                \<lparr>key = ''FSC/31TCH/2025/02/04/P3/c.tif'', size_bytes = 30\<rparr>]
     \<lparr>year = 2025, month = 2, day = 1\<rparr> \<lparr>year = 2025, month = 2, day = 4\<rparr> ''FSC'' ''31TCH''
     = [\<lparr>key = ''FSC/31TCH/2025/02/01/P1/a.tif'', size_bytes = 10\<rparr>,
        \<lparr>key = ''FSC/31TCH/2025/02/02/P2/b.tif'', size_bytes = 20\<rparr>] \<and>
   contents_of [\<lparr>key = ''FSC/31TCH/2025/02/01/P1/a.tif'', size_bytes = 10\<rparr>,
                \<lparr>key = ''FSC/31TCH/2025/02/02/P2/b.tif'', size_bytes = 20\<rparr>,
                \<lparr>key = ''FSC/31TCH/2025/02/04/P3/c.tif'', size_bytes = 30\<rparr>]
     \<lparr>year = 2025, month = 2, day = 2\<rparr> \<lparr>year = 2025, month = 2, day = 3\<rparr> ''FSC'' ''31TCH''
     = [\<lparr>key = ''FSC/31TCH/2025/02/02/P2/b.tif'', size_bytes = 20\<rparr>]"
  by code_simp

theorem date_bounded_listing_witness:
  "valid_date \<lparr>year = 2025, month = 2, day = 1\<rparr> \<and>
   1000 \<le> year \<lparr>year = 2025, month = 2, day = 1\<rparr> \<and>
   valid_date \<lparr>year = 2025, month = 2, day = 3\<rparr> \<and>
   \<lparr>year = 2025, month = 2, day = 3\<rparr> \<noteq> date_max \<and>
   date_le \<lparr>year = 2025, month = 2, day = 1\<rparr> \<lparr>year = 2025, month = 2, day = 3\<rparr> \<and>
   key_date ''FSC/31TCH'' ''FSC/31TCH/2025/02/01/P1/a.tif'' \<noteq> None \<and>
   key_date ''FSC/31TCH'' ''FSC/31TCH/2025/02/02/P2/b.tif'' \<noteq> None \<and>
   key_date ''FSC/31TCH'' ''FSC/31TCH/2025/02/04/P3/c.tif'' \<noteq> None \<and>
   (\<exists>ed r. add_one_day \<lparr>year = 2025, month = 2, day = 3\<rparr> = Inr ed \<and>
      set (contents_of [\<lparr>key = ''FSC/31TCH/2025/02/01/P1/a.tif'', size_bytes = 10\<rparr>,
                        \<lparr>key = ''FSC/31TCH/2025/02/02/P2/b.tif'', size_bytes = 20\<rparr>,
                        \<lparr>key = ''FSC/31TCH/2025/02/04/P3/c.tif'', size_bytes = 30\<rparr>]
             \<lparr>year = 2025, month = 2, day = 1\<rparr> ed ''FSC'' ''31TCH'') =
        {obj \<in> set [\<lparr>key = ''FSC/31TCH/2025/02/01/P1/a.tif'', size_bytes = 10\<rparr>,
                     \<lparr>key = ''FSC/31TCH/2025/02/02/P2/b.tif'', size_bytes = 20\<rparr>,
                     \<lparr>key = ''FSC/31TCH/2025/02/04/P3/c.tif'', size_bytes = 30\<rparr>].
           \<exists>d. key_date ''FSC/31TCH'' (key obj) = Some d \<and>
               date_le \<lparr>year = 2025, month = 2, day = 1\<rparr> d \<and>
               date_le d \<lparr>year = 2025, month = 2, day = 3\<rparr>} \<and>
      execute_request [\<lparr>key = ''FSC/31TCH/2025/02/01/P1/a.tif'', size_bytes = 10\<rparr>,
                       \<lparr>key = ''FSC/31TCH/2025/02/02/P2/b.tif'', size_bytes = 20\<rparr>,
                       \<lparr>key = ''FSC/31TCH/2025/02/04/P3/c.tif'', size_bytes = 30\<rparr>]
        \<lparr>tiles = [''31TCH''], productType = [''FSC''],
         start_date = \<lparr>year = 2025, month = 2, day = 1\<rparr>,
         end_date = \<lparr>year = 2025, month = 2, day = 3\<rparr>\<rparr> = Inr r) \<and>
   contents_of [\<lparr>key = ''FSC/31TCH/2025/02/01/P1/a.tif'', size_bytes = 10\<rparr>,
                \<lparr>key = ''FSC/31TCH/2025/02/02/P2/b.tif'', size_bytes = 20\<rparr>,
                \<lparr>key = ''FSC/31TCH/2025/02/04/P3/c.tif'', size_bytes = 30\<rparr>]
     \<lparr>year = 2025, month = 2, day = 1\<rparr> \<lparr>year = 2025, month = 2, day = 4\<rparr> ''FSC'' ''31TCH''
     = [\<lparr>key = ''FSC/31TCH/2025/02/01/P1/a.tif'', size_bytes = 10\<rparr>,
        \<lparr>key = ''FSC/31TCH/2025/02/02/P2/b.tif'', size_bytes = 20\<rparr>] \<and>
   (\<exists>ed. add_one_day \<lparr>year = 2025, month = 2, day = 2\<rparr> = Inr ed \<and>
      set (contents_of [\<lparr>key = ''FSC/31TCH/2025/02/01/P1/a.tif'', size_bytes = 10\<rparr>,
                        \<lparr>key = ''FSC/31TCH/2025/02/02/P2/b.tif'', size_bytes = 20\<rparr>,
                        \<lparr>key = ''FSC/31TCH/2025/02/04/P3/c.tif'', size_bytes = 30\<rparr>]
             \<lparr>year = 2025, month = 2, day = 2\<rparr> ed ''FSC'' ''31TCH'') =
        {obj \<in> set [\<lparr>key = ''FSC/31TCH/2025/02/01/P1/a.tif'', size_bytes = 10\<rparr>,
                     \<lparr>key = ''FSC/31TCH/2025/02/02/P2/b.tif'', size_bytes = 20\<rparr>,
                     \<lparr>key = ''FSC/31TCH/2025/02/04/P3/c.tif'', size_bytes = 30\<rparr>].
           key_date ''FSC/31TCH'' (key obj) = Some \<lparr>year = 2025, month = 2, day = 2\<rparr>}) \<and>
   contents_of [\<lparr>key = ''FSC/31TCH/2025/02/01/P1/a.tif'', size_bytes = 10\<rparr>,
                \<lparr>key = ''FSC/31TCH/2025/02/02/P2/b.tif'', size_bytes = 20\<rparr>,
                \<lparr>key = ''FSC/31TCH/2025/02/04/P3/c.tif'', size_bytes = 30\<rparr>]
     \<lparr>year = 2025, month = 2, day = 2\<rparr> \<lparr>year = 2025, month = 2, day = 3\<rparr> ''FSC'' ''31TCH''
     = [\<lparr>key = ''FSC/31TCH/2025/02/02/P2/b.tif'', size_bytes = 20\<rparr>]"
proof -
  let ?b = "[\<lparr>key = ''FSC/31TCH/2025/02/01/P1/a.tif'', size_bytes = 10\<rparr>,
             \<lparr>key = ''FSC/31TCH/2025/02/02/P2/b.tif'', size_bytes = 20\<rparr>,
             \<lparr>key = ''FSC/31TCH/2025/02/04/P3/c.tif'', size_bytes = 30\<rparr>]"
  let ?s = "\<lparr>year = 2025, month = 2, day = 1\<rparr>"
  let ?m = "\<lparr>year = 2025, month = 2, day = 2\<rparr>"
  let ?e = "\<lparr>year = 2025, month = 2, day = 3\<rparr>"
  note ex = catalogue_example
  have wf: "\<forall>obj \<in> set ?b. startswith (''FSC'' @ ''/'' @ ''31TCH'') (key obj) \<longrightarrow>
                key_date (''FSC'' @ ''/'' @ ''31TCH'') (key obj) \<noteq> None"
    using ex by simp
  have vs: "valid_date ?s" and ys: "1000 \<le> year ?s" and ve: "valid_date ?e"
    and ne: "?e \<noteq> date_max" and le: "date_le ?s ?e"
    and vm: "valid_date ?m" and ym: "1000 \<le> year ?m" and nm: "?m \<noteq> date_max"
    and lm: "date_le ?m ?m"
    using ex by simp_all
  from date_bounded_listing [OF vs ys ve ne le wf]
  have a: "\<exists>ed r. add_one_day ?e = Inr ed \<and>
      set (contents_of ?b ?s ed ''FSC'' ''31TCH'') =
        {obj \<in> set ?b. \<exists>d. key_date ''FSC/31TCH'' (key obj) = Some d \<and>
               date_le ?s d \<and> date_le d ?e} \<and>
      execute_request ?b \<lparr>tiles = [''31TCH''], productType = [''FSC''],
         start_date = ?s, end_date = ?e\<rparr> = Inr r"
    by auto
  from date_bounded_listing [OF vm ym vm nm lm wf]
  have b: "\<exists>ed. add_one_day ?m = Inr ed \<and>
      set (contents_of ?b ?m ed ''FSC'' ''31TCH'') =
        {obj \<in> set ?b. key_date ''FSC/31TCH'' (key obj) = Some ?m}"
    by auto
  from ex a b vs ys ve ne le show ?thesis by simp
qed

end
